theory Spec2Isabelle
  imports Main
begin

section \<open>The webview service worker (pre/service-worker.js)\<close>

text \<open>
  The service worker answers two kinds of intercepted requests of a webview: resources
  below \<^verbatim>\<open>/vscode-resource\<close> and requests to \<^verbatim>\<open>localhost:port\<close>. For both it asks the
  outer iframe of the webview (a \<^verbatim>\<open>postMessage\<close>) and parks the request on a promise kept in
  a \<^verbatim>\<open>RequestStore\<close>; a later message of the outer iframe resolves the promise.

  The embedding keeps the source's names. Promise objects are addresses into a list of
  promise states, so that two entries can be told apart; asynchronous functions are
  tasks that stop at each \<^verbatim>\<open>await\<close>, and the event loop is a list of events, each of
  which runs one listener or one continuation to its next suspension point.
\<close>

subsection \<open>Strings\<close>

definition resourceRoot :: string where
  "resourceRoot = ''/vscode-resource''"

text \<open>\<^verbatim>\<open>s.startsWith(p)\<close>.\<close>

definition startsWith :: "string \<Rightarrow> string \<Rightarrow> bool" where
  "startsWith s p = (take (length p) s = p)"

text \<open>\<^verbatim>\<open>\w\<close> of a regular expression: \<^verbatim>\<open>[A-Za-z0-9_]\<close>.\<close>

definition isWordChar :: "char \<Rightarrow> bool" where
  "isWordChar c =
     (c \<in> set ''abcdefghijklmnopqrstuvwxyzABCDEFGHIJKLMNOPQRSTUVWXYZ0123456789_'')"

text \<open>The class \<^verbatim>\<open>[a-z0-9-]\<close> under the flag \<^verbatim>\<open>i\<close>.\<close>

definition isIdChar :: "char \<Rightarrow> bool" where
  "isIdChar c =
     (c \<in> set ''abcdefghijklmnopqrstuvwxyzABCDEFGHIJKLMNOPQRSTUVWXYZ0123456789-'')"

definition isDigit :: "char \<Rightarrow> bool" where
  "isDigit c = (c \<in> set ''0123456789'')"

text \<open>
  \<^verbatim>\<open>s.match(/\bid=([a-z0-9-]+)/i)\<close>: the first capture group of the leftmost
  match, \<open>None\<close> for \<^verbatim>\<open>null\<close>. The flag is the letter that says whether the character
  before the current position is a word character: the pattern starts with the word
  character \<^verbatim>\<open>i\<close>, so \<^verbatim>\<open>\b\<close> holds exactly when the previous character is none or not a
  word character. The group is greedy and nothing follows it.
\<close>

fun matchId :: "bool \<Rightarrow> string \<Rightarrow> string option" where
  "matchId prevWord [] = None"
| "matchId prevWord (c # cs) =
     (if \<not> prevWord \<and> (c = CHR ''i'' \<or> c = CHR ''I'')
         \<and> (take 1 cs = ''d'' \<or> take 1 cs = ''D'')
         \<and> take 1 (drop 1 cs) = ''=''
         \<and> takeWhile isIdChar (drop 2 cs) \<noteq> []
      then Some (takeWhile isIdChar (drop 2 cs))
      else matchId (isWordChar c) cs)"

text \<open>
  \<^verbatim>\<open>s.match(new RegExp('\\bid=' + webviewId))\<close> as a truth value. The identifier is
  spliced into the pattern; every identifier that \<open>matchId\<close> returns consists of
  letters, digits and hyphens, which stand for themselves in a pattern, so the pattern is
  the literal text \<open>pat\<close> after a word boundary. No flag: the comparison is case
  sensitive, and nothing anchors the end of the identifier.
\<close>

fun testLiteralAfterBoundary :: "string \<Rightarrow> bool \<Rightarrow> string \<Rightarrow> bool" where
  "testLiteralAfterBoundary pat prevWord [] = False"
| "testLiteralAfterBoundary pat prevWord (c # cs) =
     ((\<not> prevWord \<and> startsWith (c # cs) pat)
      \<or> testLiteralAfterBoundary pat (isWordChar c) cs)"

text \<open>\<^verbatim>\<open>s.replace(pat, '')\<close> with a string pattern: the first occurrence goes.\<close>

fun removeFirst :: "string \<Rightarrow> string \<Rightarrow> string" where
  "removeFirst pat [] = []"
| "removeFirst pat (c # cs) =
     (if startsWith (c # cs) pat then drop (length pat) (c # cs)
      else c # removeFirst pat cs)"

text \<open>
  \<^verbatim>\<open>GetSubstitution\<close> of ECMAScript for a match at the start of the input with one
  capture group: \<^verbatim>\<open>$$\<close> is a dollar, \<^verbatim>\<open>$&\<close> the match, \<^verbatim>\<open>$`\<close> the text before the match
  (empty here), \<^verbatim>\<open>$'\<close> the text after it, \<^verbatim>\<open>$1\<close> and \<^verbatim>\<open>$01\<close> the group; every other
  dollar stands for itself.
\<close>

fun getSubstitution :: "string \<Rightarrow> string \<Rightarrow> string \<Rightarrow> string \<Rightarrow> string" where
  "getSubstitution matched after group1 [] = []"
| "getSubstitution matched after group1 [c] = [c]"
| "getSubstitution matched after group1 (c # d # t) =
     (if c \<noteq> CHR ''$'' then c # getSubstitution matched after group1 (d # t)
      else if d = CHR ''$'' then CHR ''$'' # getSubstitution matched after group1 t
      else if d = CHR ''&'' then matched @ getSubstitution matched after group1 t
      else if d = CHR 0x60 then getSubstitution matched after group1 t
      else if d = CHR 0x27 then after @ getSubstitution matched after group1 t
      else if d = CHR ''1'' then group1 @ getSubstitution matched after group1 t
      else if d = CHR ''0'' \<and> take 1 t = ''1''
        then group1 @ getSubstitution matched after group1 (drop 1 t)
      else c # getSubstitution matched after group1 (d # t))"

text \<open>
  \<^verbatim>\<open>url.replace(new RegExp(`^${origin}(/|$)`), template)\<close>. The origin is spliced into
  the pattern; the fetch listener only passes origins of the form
  \<^verbatim>\<open>scheme://localhost:port\<close>, in which every character stands for itself
  (\<open>isRegExpLiteral\<close>), and the function below is the replacement for such origins.
\<close>

definition isRegExpLiteral :: "string \<Rightarrow> bool" where
  "isRegExpLiteral s = list_all (\<lambda>c. c \<notin> set (CHR 0x5C # ''^$.*+?()[]{}|'')) s"

definition replaceOrigin :: "string \<Rightarrow> string \<Rightarrow> string \<Rightarrow> string" where
  "replaceOrigin url origin template =
     (if startsWith url origin then
        (case drop (length origin) url of
           [] \<Rightarrow> getSubstitution origin [] [] template
         | c # rest \<Rightarrow>
             if c = CHR ''/''
             then getSubstitution (origin @ [c]) rest [c] template @ rest
             else url)
      else url)"

subsection \<open>Promises and the request store\<close>

datatype 'v promise = Pending | Fulfilled 'v

text \<open>The resolving function of a promise: only the first call settles it.\<close>

definition promise_resolve :: "'v \<Rightarrow> 'v promise \<Rightarrow> 'v promise" where
  "promise_resolve x p = (case p of Pending \<Rightarrow> Fulfilled x | Fulfilled y \<Rightarrow> Fulfilled y)"

text \<open>
  \<^verbatim>\<open>class RequestStore\<close>. An entry \<^verbatim>\<open>{ resolve, promise }\<close> is the address of its promise
  (\<^verbatim>\<open>resolve\<close> is the resolving function of that very promise). \<open>store_map\<close> is the
  \<^verbatim>\<open>Map\<close>, in insertion order; \<open>promises\<close> holds the states of the promises that
  \<^verbatim>\<open>create\<close> has allocated, by address.
\<close>

record 'v RequestStore =
  store_map :: "(string \<times> nat) list"
  promises :: "'v promise list"

definition RequestStore_new :: "'v RequestStore" where
  "RequestStore_new = \<lparr>store_map = [], promises = []\<rparr>"

text \<open>\<^verbatim>\<open>Map.prototype.set\<close>: an existing key keeps its place, a new key goes last.\<close>

primrec Map_set :: "string \<Rightarrow> nat \<Rightarrow> (string \<times> nat) list \<Rightarrow> (string \<times> nat) list" where
  "Map_set k v [] = [(k, v)]"
| "Map_set k v (p # ps) = (if fst p = k then (k, v) # ps else p # Map_set k v ps)"

definition RequestStore_key :: "string \<Rightarrow> string \<Rightarrow> string" where
  "RequestStore_key webviewId path = webviewId @ ''@@@'' @ path"

definition RequestStore_get :: "'v RequestStore \<Rightarrow> string \<Rightarrow> string \<Rightarrow> nat option" where
  "RequestStore_get st webviewId path =
     map_of (store_map st) (RequestStore_key webviewId path)"

text \<open>\<^verbatim>\<open>create\<close> returns the promise (its address) and the store.\<close>

definition RequestStore_create ::
  "'v RequestStore \<Rightarrow> string \<Rightarrow> string \<Rightarrow> nat \<times> 'v RequestStore" where
  "RequestStore_create st webviewId path =
     (case RequestStore_get st webviewId path of
        Some existing \<Rightarrow> (existing, st)
      | None \<Rightarrow>
          (let promise = length (promises st) in
           (promise,
            st\<lparr>store_map := Map_set (RequestStore_key webviewId path) promise (store_map st),
               promises := promises st @ [Pending]\<rparr>)))"

definition RequestStore_resolve ::
  "'v RequestStore \<Rightarrow> string \<Rightarrow> string \<Rightarrow> 'v \<Rightarrow> bool \<times> 'v RequestStore" where
  "RequestStore_resolve st webviewId path result =
     (case RequestStore_get st webviewId path of
        None \<Rightarrow> (False, st)
      | Some entry \<Rightarrow>
          (True,
           st\<lparr>promises :=
                (promises st)[entry := promise_resolve result (promises st ! entry)]\<rparr>))"

text \<open>The state of a promise at an address; \<open>None\<close> where nothing was allocated.\<close>

definition promise_at :: "'v RequestStore \<Rightarrow> nat \<Rightarrow> 'v promise option" where
  "promise_at st a = (if a < length (promises st) then Some (promises st ! a) else None)"

subsection \<open>The \<^verbatim>\<open>Response\<close> constructor\<close>

text \<open>
  \<^verbatim>\<open>new Response(body, { status, headers })\<close> is the platform's; what follows is the part
  of its definition in the Fetch standard that a call with a body, a status and headers
  reaches. A string of the model is a sequence of bytes, so every string is a
  \<^verbatim>\<open>ByteString\<close>.
\<close>

datatype js_error = TypeError | RangeError

text \<open>HTTP whitespace bytes: tab, line feed, carriage return, space.\<close>

definition isHttpWhitespace :: "char \<Rightarrow> bool" where
  "isHttpWhitespace c = (c = CHR 0x09 \<or> c = CHR 0x0A \<or> c = CHR 0x0D \<or> c = CHR 0x20)"

text \<open>To normalize a header value: leading and trailing HTTP whitespace goes.\<close>

definition normalizeValue :: "string \<Rightarrow> string" where
  "normalizeValue v = rev (dropWhile isHttpWhitespace (rev (dropWhile isHttpWhitespace v)))"

text \<open>
  A header value has no leading or trailing tab or space and contains no NUL, line feed
  or carriage return.
\<close>

definition isHeaderValue :: "string \<Rightarrow> bool" where
  "isHeaderValue v =
     ((v = [] \<or> (hd v \<noteq> CHR 0x09 \<and> hd v \<noteq> CHR 0x20
                  \<and> last v \<noteq> CHR 0x09 \<and> last v \<noteq> CHR 0x20))
      \<and> list_all (\<lambda>c. c \<noteq> CHR 0x00 \<and> c \<noteq> CHR 0x0A \<and> c \<noteq> CHR 0x0D) v)"

text \<open>A header name is a non-empty token.\<close>

definition isTokenChar :: "char \<Rightarrow> bool" where
  "isTokenChar c =
     (c \<in> set ''abcdefghijklmnopqrstuvwxyzABCDEFGHIJKLMNOPQRSTUVWXYZ0123456789!#$%&*+-.^_|~''
      \<or> c = CHR 0x27 \<or> c = CHR 0x60)"

definition isHeaderName :: "string \<Rightarrow> bool" where
  "isHeaderName n = (n \<noteq> [] \<and> list_all isTokenChar n)"

text \<open>Header names are compared without regard to the case of ASCII letters.\<close>

definition toLower :: "char \<Rightarrow> char" where
  "toLower c =
     (case map_of (zip ''ABCDEFGHIJKLMNOPQRSTUVWXYZ'' ''abcdefghijklmnopqrstuvwxyz'') c of
        Some l \<Rightarrow> l
      | None \<Rightarrow> c)"

definition sameHeaderName :: "string \<Rightarrow> string \<Rightarrow> bool" where
  "sameHeaderName n n' = (map toLower n = map toLower n')"

text \<open>The names that the headers of a response silently refuse.\<close>

definition isForbiddenResponseHeaderName :: "string \<Rightarrow> bool" where
  "isForbiddenResponseHeaderName n =
     (sameHeaderName n ''set-cookie'' \<or> sameHeaderName n ''set-cookie2'')"

text \<open>
  To fill the headers of a response from \<^verbatim>\<open>init.headers\<close>: each value is normalized; a
  name that is no header name or a value that is no header value throws a
  \<^verbatim>\<open>TypeError\<close>; a forbidden name is skipped; anything else is appended.
\<close>

fun fillHeaders ::
  "(string \<times> string) list \<Rightarrow> (string \<times> string) list
     \<Rightarrow> js_error + (string \<times> string) list" where
  "fillHeaders [] acc = Inr acc"
| "fillHeaders ((n, v) # hs) acc =
     (if \<not> isHeaderName n \<or> \<not> isHeaderValue (normalizeValue v) then Inl TypeError
      else if isForbiddenResponseHeaderName n then fillHeaders hs acc
      else fillHeaders hs (acc @ [(n, normalizeValue v)]))"

text \<open>
  The body given to the constructor: a string, whose bytes are its UTF-8 encoding and
  whose type is \<^verbatim>\<open>text/plain;charset=UTF-8\<close>, or a buffer of bytes, which has no type.
\<close>

datatype BodyInit = Text string | Bytes string

fun bodyBytes :: "BodyInit \<Rightarrow> string" where
  "bodyBytes (Text s) = s"
| "bodyBytes (Bytes b) = b"

fun bodyType :: "BodyInit \<Rightarrow> string option" where
  "bodyType (Text s) = Some ''text/plain;charset=UTF-8''"
| "bodyType (Bytes b) = None"

text \<open>
  A response: the status, the bytes of the body (\<open>None\<close> for a \<^verbatim>\<open>null\<close> body) and the
  header list.
\<close>

record Response =
  status :: nat
  responseBody :: "string option"
  headers :: "(string \<times> string) list"

text \<open>
  The constructor: a status outside 200 to 599 throws a \<^verbatim>\<open>RangeError\<close>; the headers
  are filled; a body together with a null body status (of those in range: 204, 205,
  304) throws a \<^verbatim>\<open>TypeError\<close>; the type of the body becomes the \<^verbatim>\<open>Content-Type\<close> when
  the headers have none.
\<close>

definition Response_new ::
  "BodyInit option \<Rightarrow> nat \<Rightarrow> (string \<times> string) list \<Rightarrow> js_error + Response" where
  "Response_new bodyInit st hdrs =
     (if st < 200 \<or> 599 < st then Inl RangeError
      else
        (case fillHeaders hdrs [] of
           Inl e \<Rightarrow> Inl e
         | Inr hs \<Rightarrow>
             (case bodyInit of
                None \<Rightarrow> Inr \<lparr>status = st, responseBody = None, headers = hs\<rparr>
              | Some b \<Rightarrow>
                  if st = 204 \<or> st = 205 \<or> st = 304 then Inl TypeError
                  else Inr \<lparr>status = st, responseBody = Some (bodyBytes b),
                         headers =
                           (case bodyType b of
                              None \<Rightarrow> hs
                            | Some ty \<Rightarrow>
                                if list_ex (\<lambda>h. sameHeaderName (fst h) ''Content-Type'') hs
                                then hs
                                else hs @ [(''Content-Type'', ty)])\<rparr>)))"

subsection \<open>Clients, requests, responses\<close>

text \<open>
  \<^verbatim>\<open>new URL(...)\<close> is the platform's parser; a URL is the record of the components the
  code reads.
\<close>

record URL =
  origin :: string
  host :: string
  pathname :: string
  search :: string

text \<open>A client, by \<^verbatim>\<open>new URL(client.url)\<close>.\<close>

record client =
  client_url :: URL

text \<open>The fetch event: \<^verbatim>\<open>event.request.url\<close> and \<^verbatim>\<open>event.clientId\<close>.\<close>

record FetchEvent =
  request_url :: string
  clientId :: string

text \<open>
  The value of \<^verbatim>\<open>{ body, mime }\<close>, the body being the bytes of the resource;
  \<^verbatim>\<open>undefined\<close> is \<open>None\<close> of the option type.
\<close>

record ResourceEntry =
  body :: string
  mime :: string

text \<open>
  \<^verbatim>\<open>new Response('Not Found', { status: 404 })\<close>, as the constructor gives it
  (\<open>Response_new_notFound\<close> below); a \<^verbatim>\<open>clone()\<close> of it has the same status, body and
  headers.
\<close>

definition notFoundResponse :: Response where
  "notFoundResponse =
     \<lparr>status = 404, responseBody = Some ''Not Found'',
      headers = [(''Content-Type'', ''text/plain;charset=UTF-8'')]\<rparr>"

text \<open>
  What an asynchronous handler hands to \<^verbatim>\<open>event.respondWith\<close>: a response,
  \<^verbatim>\<open>undefined\<close>, or the promise of \<^verbatim>\<open>fetch(event.request)\<close>.
\<close>

datatype answer = Respond Response | Undefined | NetworkFetch FetchEvent

text \<open>
  \<^verbatim>\<open>getWebviewIdForClient\<close>: \<open>None\<close> is the \<^verbatim>\<open>TypeError\<close> of \<^verbatim>\<open>null[1]\<close> when the
  pattern does not match.
\<close>

definition getWebviewIdForClient :: "client \<Rightarrow> string option" where
  "getWebviewIdForClient c = matchId False (search (client_url c))"

text \<open>
  \<^verbatim>\<open>getOuterIframeClient\<close>, after \<^verbatim>\<open>clients.matchAll\<close> has returned \<open>allClients\<close>:
  \<^verbatim>\<open>Array.prototype.find\<close> with the test \<open>isOuterIframeOf\<close> (the path is the root
  path and the query matches the pattern built from \<^verbatim>\<open>webviewId\<close>), \<open>None\<close> for
  \<^verbatim>\<open>undefined\<close>.
\<close>

definition isOuterIframeOf :: "string \<Rightarrow> client \<Rightarrow> bool" where
  "isOuterIframeOf webviewId c =
     (pathname (client_url c) = ''/''
      \<and> testLiteralAfterBoundary (''id='' @ webviewId) False (search (client_url c)))"

definition getOuterIframeClient :: "string \<Rightarrow> client list \<Rightarrow> client option" where
  "getOuterIframeClient webviewId allClients = find (isOuterIframeOf webviewId) allClients"

text \<open>
  \<^verbatim>\<open>resolveResourceEntry\<close> of \<^verbatim>\<open>processResourceRequest\<close>; \<open>Inl\<close> is what the
  constructor throws.
\<close>

definition resolveResourceEntry :: "ResourceEntry option \<Rightarrow> js_error + Response" where
  "resolveResourceEntry entry =
     (case entry of
        None \<Rightarrow> Inr notFoundResponse
      | Some e \<Rightarrow> Response_new (Some (Bytes (body e))) 200 [(''Content-Type'', mime e)])"

text \<open>
  \<^verbatim>\<open>resolveRedirect\<close> of \<^verbatim>\<open>processLocalhostRequest\<close>; \<^verbatim>\<open>!redirectOrigin\<close> holds for
  \<^verbatim>\<open>undefined\<close> and for the empty string; \<open>Inl\<close> is what the constructor throws.
\<close>

definition resolveRedirect :: "FetchEvent \<Rightarrow> URL \<Rightarrow> string option \<Rightarrow> js_error + answer" where
  "resolveRedirect event requestUrl redirectOrigin =
     (case redirectOrigin of
        None \<Rightarrow> Inr (NetworkFetch event)
      | Some r \<Rightarrow>
          if r = [] then Inr (NetworkFetch event)
          else
            (case Response_new None 302
                    [(''Location'',
                      replaceOrigin (request_url event) (origin requestUrl) (r @ ''$1''))] of
               Inl e \<Rightarrow> Inl e
             | Inr response \<Rightarrow> Inr (Respond response)))"

subsection \<open>Messages\<close>

text \<open>
  \<^verbatim>\<open>event.data\<close> of a message event, by channel: \<^verbatim>\<open>did-load-resource\<close> with
  \<^verbatim>\<open>data.path\<close>, \<^verbatim>\<open>data.status\<close>, \<^verbatim>\<open>data.data\<close>, \<^verbatim>\<open>data.mime\<close>; \<^verbatim>\<open>did-load-localhost\<close> with
  \<^verbatim>\<open>data.origin\<close> and \<^verbatim>\<open>data.location\<close>; any other channel.
\<close>

datatype message_data =
    DidLoadResource string int string string
  | DidLoadLocalhost string "string option"
  | OtherChannel string

text \<open>What the worker posts: \<^verbatim>\<open>load-resource\<close> with a path, \<^verbatim>\<open>load-localhost\<close> with an origin.\<close>

datatype posted_message = LoadResource string | LoadLocalhost string

subsection \<open>Tasks and the event loop\<close>

text \<open>
  A task is a call of \<^verbatim>\<open>processResourceRequest\<close> or \<^verbatim>\<open>processLocalhostRequest\<close>,
  stopped at one of its suspension points with the local variables it still reads, or
  finished.
  \<^item> \<open>Resource_AwaitClient\<close>: at \<^verbatim>\<open>await self.clients.get(event.clientId)\<close>;
  \<^item> \<open>Resource_AwaitMatchAll\<close>: in \<^verbatim>\<open>getOuterIframeClient\<close>, at
    \<^verbatim>\<open>await self.clients.matchAll(...)\<close>;
  \<^item> \<open>Resource_AwaitOuter\<close>: at \<^verbatim>\<open>await getOuterIframeClient(webviewId)\<close>, whose value
    is already known;
  \<^item> \<open>Resource_AwaitEntry\<close>: the returned \<^verbatim>\<open>promise.then(resolveResourceEntry)\<close>, waiting
    for the promise at the given address;
  and the same four for the localhost flow. \<open>Returned\<close> holds what the function
  returned, \<open>Threw\<close> is a rejection (the \<^verbatim>\<open>TypeError\<close> of \<^verbatim>\<open>getWebviewIdForClient\<close>, or
  what \<^verbatim>\<open>resolveResourceEntry\<close> or \<^verbatim>\<open>resolveRedirect\<close> throws).
\<close>

datatype task =
    Resource_AwaitClient URL
  | Resource_AwaitMatchAll string string
  | Resource_AwaitOuter string string "client option"
  | Resource_AwaitEntry string string nat
  | Localhost_AwaitClient FetchEvent URL
  | Localhost_AwaitMatchAll FetchEvent URL string
  | Localhost_AwaitOuter FetchEvent URL string "client option"
  | Localhost_AwaitEntry FetchEvent URL string nat
  | Returned answer
  | Threw

text \<open>
  How the promise of \<^verbatim>\<open>promise.then(resolveResourceEntry)\<close> settles: with the response,
  or rejected when the callback throws; and the same for
  \<^verbatim>\<open>promise.then(resolveRedirect)\<close>.
\<close>

fun settle :: "js_error + Response \<Rightarrow> task" where
  "settle (Inr r) = Returned (Respond r)"
| "settle (Inl e) = Threw"

fun settleRedirect :: "js_error + answer \<Rightarrow> task" where
  "settleRedirect (Inr r) = Returned r"
| "settleRedirect (Inl e) = Threw"

text \<open>
  The worker's state: the two module-level stores, the tasks in the order of their fetch
  events, the \<^verbatim>\<open>postMessage\<close> calls so far and the \<^verbatim>\<open>console.log\<close> calls so far (each
  with its arguments). A \<^verbatim>\<open>postMessage\<close> is recorded with the local \<^verbatim>\<open>webviewId\<close> of the
  call that made it, then the client it went to and the message.
\<close>

record world =
  resourceRequestStore :: "ResourceEntry option RequestStore"
  localhostRequestStore :: "string option RequestStore"
  tasks :: "task list"
  posted :: "(string \<times> client \<times> posted_message) list"
  console :: "string list list"

definition init_world :: world where
  "init_world = \<lparr>resourceRequestStore = RequestStore_new,
     localhostRequestStore = RequestStore_new, tasks = [], posted = [], console = []\<rparr>"

text \<open>\<^verbatim>\<open>host.match(/^localhost:(\d+)$/)\<close> as a truth value.\<close>

definition isLocalhostHost :: "string \<Rightarrow> bool" where
  "isLocalhostHost h =
     (startsWith h ''localhost:'' \<and> drop 10 h \<noteq> [] \<and> list_all isDigit (drop 10 h))"

text \<open>
  The \<^verbatim>\<open>fetch\<close> listener: it starts one of the two asynchronous functions, which runs
  up to its first \<^verbatim>\<open>await\<close>, or does not call \<^verbatim>\<open>respondWith\<close>.
\<close>

definition fetchListener :: "string \<Rightarrow> FetchEvent \<Rightarrow> URL \<Rightarrow> world \<Rightarrow> world" where
  "fetchListener self_origin event requestUrl w =
     (if origin requestUrl = self_origin
         \<and> startsWith (pathname requestUrl) (resourceRoot @ ''/'')
      then w\<lparr>tasks := tasks w @ [Resource_AwaitClient requestUrl]\<rparr>
      else if origin requestUrl \<noteq> self_origin \<and> isLocalhostHost (host requestUrl)
      then w\<lparr>tasks := tasks w @ [Localhost_AwaitClient event requestUrl]\<rparr>
      else w)"

text \<open>
  The \<^verbatim>\<open>message\<close> listener. When \<^verbatim>\<open>getWebviewIdForClient\<close> throws, the listener ends
  there and nothing has changed.
\<close>

definition messageListener :: "client \<Rightarrow> message_data \<Rightarrow> world \<Rightarrow> world" where
  "messageListener source msg w =
     (case msg of
        DidLoadResource path st dat mim \<Rightarrow>
          (case getWebviewIdForClient source of
             None \<Rightarrow> w
           | Some webviewId \<Rightarrow>
               (let response = (if st = 200 then Some \<lparr>body = dat, mime = mim\<rparr> else None);
                    (ok, store) = RequestStore_resolve (resourceRequestStore w)
                                    webviewId path response
                in if ok then w\<lparr>resourceRequestStore := store\<rparr>
                   else w\<lparr>resourceRequestStore := store,
                          console := console w @ [[''Could not resolve unknown resource'', path]]\<rparr>))
      | DidLoadLocalhost orig location \<Rightarrow>
          (case getWebviewIdForClient source of
             None \<Rightarrow> w
           | Some webviewId \<Rightarrow>
               (let (ok, store) = RequestStore_resolve (localhostRequestStore w)
                                    webviewId orig location
                in if ok then w\<lparr>localhostRequestStore := store\<rparr>
                   else w\<lparr>localhostRequestStore := store,
                          console := console w @ [[''Could not resolve unknown localhost'', orig]]\<rparr>))
      | OtherChannel ch \<Rightarrow> w\<lparr>console := console w @ [[''Unknown message'']]\<rparr>)"

text \<open>
  \<^verbatim>\<open>self.clients.get(event.clientId)\<close> has settled with \<open>found\<close> for task \<open>t\<close>: the
  function runs on to \<^verbatim>\<open>self.clients.matchAll\<close> inside \<^verbatim>\<open>getOuterIframeClient\<close>.
\<close>

definition afterClientsGet :: "nat \<Rightarrow> client option \<Rightarrow> world \<Rightarrow> world" where
  "afterClientsGet t found w =
     (if t < length (tasks w) then
        (case tasks w ! t of
           Resource_AwaitClient requestUrl \<Rightarrow>
             (case found of
                None \<Rightarrow>
                  w\<lparr>tasks := (tasks w)[t := Returned (Respond notFoundResponse)],
                    console := console w @ [[''Could not find inner client for request'']]\<rparr>
              | Some c \<Rightarrow>
                  (case getWebviewIdForClient c of
                     None \<Rightarrow> w\<lparr>tasks := (tasks w)[t := Threw]\<rparr>
                   | Some webviewId \<Rightarrow>
                       w\<lparr>tasks := (tasks w)[t := Resource_AwaitMatchAll webviewId
                            (removeFirst resourceRoot (pathname requestUrl))]\<rparr>))
         | Localhost_AwaitClient event requestUrl \<Rightarrow>
             (case found of
                None \<Rightarrow> w\<lparr>tasks := (tasks w)[t := Returned Undefined]\<rparr>
              | Some c \<Rightarrow>
                  (case getWebviewIdForClient c of
                     None \<Rightarrow> w\<lparr>tasks := (tasks w)[t := Threw]\<rparr>
                   | Some webviewId \<Rightarrow>
                       w\<lparr>tasks := (tasks w)[t :=
                            Localhost_AwaitMatchAll event requestUrl webviewId]\<rparr>))
         | _ \<Rightarrow> w)
      else w)"

text \<open>
  \<^verbatim>\<open>self.clients.matchAll\<close> has settled with \<open>allClients\<close> for task \<open>t\<close>:
  \<^verbatim>\<open>getOuterIframeClient\<close> returns what \<^verbatim>\<open>find\<close> gives.
\<close>

definition afterMatchAll :: "nat \<Rightarrow> client list \<Rightarrow> world \<Rightarrow> world" where
  "afterMatchAll t allClients w =
     (if t < length (tasks w) then
        (case tasks w ! t of
           Resource_AwaitMatchAll webviewId resourcePath \<Rightarrow>
             w\<lparr>tasks := (tasks w)[t := Resource_AwaitOuter webviewId resourcePath
                  (getOuterIframeClient webviewId allClients)]\<rparr>
         | Localhost_AwaitMatchAll event requestUrl webviewId \<Rightarrow>
             w\<lparr>tasks := (tasks w)[t := Localhost_AwaitOuter event requestUrl webviewId
                  (getOuterIframeClient webviewId allClients)]\<rparr>
         | _ \<Rightarrow> w)
      else w)"

text \<open>
  Task \<open>t\<close> runs on from \<^verbatim>\<open>await getOuterIframeClient(webviewId)\<close> (the lookup in
  the store, the \<^verbatim>\<open>postMessage\<close> and \<^verbatim>\<open>create\<close> follow with no \<^verbatim>\<open>await\<close> between
  them), or the callback given to \<^verbatim>\<open>then\<close> runs, which needs the promise fulfilled;
  otherwise nothing happens.
\<close>

definition continue :: "nat \<Rightarrow> world \<Rightarrow> world" where
  "continue t w =
     (if t < length (tasks w) then
        (case tasks w ! t of
           Resource_AwaitOuter webviewId resourcePath parentClient \<Rightarrow>
             (case parentClient of
                None \<Rightarrow>
                  w\<lparr>tasks := (tasks w)[t := Returned (Respond notFoundResponse)],
                    console := console w @ [[''Could not find parent client for request'']]\<rparr>
              | Some pc \<Rightarrow>
                  (case RequestStore_get (resourceRequestStore w) webviewId resourcePath of
                     Some existing \<Rightarrow>
                       w\<lparr>tasks := (tasks w)[t :=
                            Resource_AwaitEntry webviewId resourcePath existing]\<rparr>
                   | None \<Rightarrow>
                       (let (promise, store) =
                              RequestStore_create (resourceRequestStore w) webviewId resourcePath
                        in w\<lparr>posted := posted w @ [(webviewId, pc, LoadResource resourcePath)],
                             resourceRequestStore := store,
                             tasks := (tasks w)[t :=
                               Resource_AwaitEntry webviewId resourcePath promise]\<rparr>)))
         | Resource_AwaitEntry webviewId resourcePath a \<Rightarrow>
             (case promise_at (resourceRequestStore w) a of
                Some (Fulfilled v) \<Rightarrow>
                  w\<lparr>tasks := (tasks w)[t := settle (resolveResourceEntry v)]\<rparr>
              | _ \<Rightarrow> w)
         | Localhost_AwaitOuter event requestUrl webviewId parentClient \<Rightarrow>
             (case parentClient of
                None \<Rightarrow>
                  w\<lparr>tasks := (tasks w)[t := Returned (Respond notFoundResponse)],
                    console := console w @ [[''Could not find parent client for request'']]\<rparr>
              | Some pc \<Rightarrow>
                  (case RequestStore_get (localhostRequestStore w) webviewId (origin requestUrl) of
                     Some existing \<Rightarrow>
                       w\<lparr>tasks := (tasks w)[t :=
                            Localhost_AwaitEntry event requestUrl webviewId existing]\<rparr>
                   | None \<Rightarrow>
                       (let (promise, store) =
                              RequestStore_create (localhostRequestStore w) webviewId
                                (origin requestUrl)
                        in w\<lparr>posted := posted w @ [(webviewId, pc, LoadLocalhost (origin requestUrl))],
                             localhostRequestStore := store,
                             tasks := (tasks w)[t :=
                               Localhost_AwaitEntry event requestUrl webviewId promise]\<rparr>)))
         | Localhost_AwaitEntry event requestUrl webviewId a \<Rightarrow>
             (case promise_at (localhostRequestStore w) a of
                Some (Fulfilled v) \<Rightarrow>
                  w\<lparr>tasks := (tasks w)[t := settleRedirect (resolveRedirect event requestUrl v)]\<rparr>
              | _ \<Rightarrow> w)
         | _ \<Rightarrow> w)
      else w)"

text \<open>
  What the event loop can do next: deliver a fetch event (with the parsed
  \<^verbatim>\<open>event.request.url\<close>), settle the \<^verbatim>\<open>clients.get\<close> or the \<^verbatim>\<open>clients.matchAll\<close> of a task
  with what the browser answers at that moment, run a task on, or deliver a message
  from a client.
\<close>

datatype event =
    Fetch FetchEvent URL
  | ClientsGetSettled nat "client option"
  | MatchAllSettled nat "client list"
  | Continue nat
  | Message client message_data

fun step :: "string \<Rightarrow> event \<Rightarrow> world \<Rightarrow> world" where
  "step self_origin (Fetch ev requestUrl) w = fetchListener self_origin ev requestUrl w"
| "step self_origin (ClientsGetSettled t found) w = afterClientsGet t found w"
| "step self_origin (MatchAllSettled t allClients) w = afterMatchAll t allClients w"
| "step self_origin (Continue t) w = continue t w"
| "step self_origin (Message source msg) w = messageListener source msg w"

fun run :: "string \<Rightarrow> event list \<Rightarrow> world \<Rightarrow> world" where
  "run self_origin [] w = w"
| "run self_origin (e # es) w = run self_origin es (step self_origin e w)"

text \<open>
  The \<^verbatim>\<open>load-resource\<close> messages posted for a key of the resource store: those of calls
  whose \<^verbatim>\<open>webviewId\<close> and \<^verbatim>\<open>resourcePath\<close> give that key.
\<close>

fun advisoryKey :: "string \<times> client \<times> posted_message \<Rightarrow> string option" where
  "advisoryKey (webviewId, c, LoadResource path) = Some (RequestStore_key webviewId path)"
| "advisoryKey (webviewId, c, LoadLocalhost orig) = None"

definition advisories :: "world \<Rightarrow> string \<Rightarrow> (string \<times> client \<times> posted_message) list" where
  "advisories w k = filter (\<lambda>x. advisoryKey x = Some k) (posted w)"

subsection \<open>Values used in the examples\<close>

text \<open>
  A webview with identifier \<^verbatim>\<open>s1\<close>: its inner frame, its outer iframe (the client at
  the root path), and a request of the inner frame for \<^verbatim>\<open>/vscode-resource/img.png\<close>.
\<close>

definition ex_inner :: client where
  "ex_inner = \<lparr>client_url = \<lparr>origin = ''https://w'', host = ''w'',
     pathname = ''/webview/index.html'', search = ''?id=s1''\<rparr>\<rparr>"

definition ex_outer :: client where
  "ex_outer = \<lparr>client_url = \<lparr>origin = ''https://w'', host = ''w'',
     pathname = ''/'', search = ''?id=s1''\<rparr>\<rparr>"

definition ex_event :: FetchEvent where
  "ex_event = \<lparr>request_url = ''https://w/vscode-resource/img.png'', clientId = ''c1''\<rparr>"

definition ex_url :: URL where
  "ex_url = \<lparr>origin = ''https://w'', host = ''w'',
     pathname = ''/vscode-resource/img.png'', search = []\<rparr>"

subsection \<open>Stores that the operations can build\<close>

text \<open>
  A store starts empty and changes by \<^verbatim>\<open>create\<close> and \<^verbatim>\<open>resolve\<close> only (\<^verbatim>\<open>get\<close> and
  \<^verbatim>\<open>_key\<close> read): \<open>store_after ops\<close> is the store after the calls \<open>ops\<close>.
\<close>

datatype 'v store_op = Create string string | Resolve string string 'v

fun apply_op :: "'v RequestStore \<Rightarrow> 'v store_op \<Rightarrow> 'v RequestStore" where
  "apply_op st (Create webviewId path) = snd (RequestStore_create st webviewId path)"
| "apply_op st (Resolve webviewId path result) =
     snd (RequestStore_resolve st webviewId path result)"

definition store_after :: "'v store_op list \<Rightarrow> 'v RequestStore" where
  "store_after ops = foldl apply_op RequestStore_new ops"

text \<open>
  What every such store satisfies: no key twice, no promise under two keys, every
  entry's promise allocated.
\<close>

definition store_ok :: "'v RequestStore \<Rightarrow> bool" where
  "store_ok st =
     (distinct (map fst (store_map st)) \<and> distinct (map snd (store_map st))
      \<and> list_all (\<lambda>a. a < length (promises st)) (map snd (store_map st)))"

text \<open>
  The state after one request for \<^verbatim>\<open>/vscode-resource/img.png\<close> of the webview \<^verbatim>\<open>s1\<close> has
  asked the outer iframe and waits.
\<close>

definition ex_waiting :: world where
  "ex_waiting =
     \<lparr>resourceRequestStore = \<lparr>store_map = [(''s1@@@/img.png'', 0)], promises = [Pending]\<rparr>,
      localhostRequestStore = RequestStore_new,
      tasks = [Resource_AwaitEntry ''s1'' ''/img.png'' 0],
      posted = [(''s1'', ex_outer, LoadResource ''/img.png'')],
      console = []\<rparr>"

text \<open>
  Two clients at the root path, with the identifiers \<^verbatim>\<open>ab\<close> and \<^verbatim>\<open>a\<close>, and a request to
  \<^verbatim>\<open>localhost:8080\<close> with its parsed URL.
\<close>

definition ex_outer_ab :: client where
  "ex_outer_ab = \<lparr>client_url = \<lparr>origin = ''https://w'', host = ''w'',
     pathname = ''/'', search = ''?id=ab''\<rparr>\<rparr>"

definition ex_outer_a :: client where
  "ex_outer_a = \<lparr>client_url = \<lparr>origin = ''https://w'', host = ''w'',
     pathname = ''/'', search = ''?id=a''\<rparr>\<rparr>"

definition ex_localhost_event :: FetchEvent where
  "ex_localhost_event =
     \<lparr>request_url = ''http://localhost:8080/app/page?x=1'', clientId = ''c1''\<rparr>"

definition ex_localhost_url :: URL where
  "ex_localhost_url = \<lparr>origin = ''http://localhost:8080'', host = ''localhost:8080'',
     pathname = ''/app/page'', search = ''?x=1''\<rparr>"

subsection \<open>Observations on tasks\<close>

text \<open>Whether a task waits for an entry of the resource store; whether it has ended.\<close>

fun isEntryWait :: "task \<Rightarrow> bool" where
  "isEntryWait (Resource_AwaitEntry s p a) = True"
| "isEntryWait _ = False"

fun isFinished :: "task \<Rightarrow> bool" where
  "isFinished (Returned r) = True"
| "isFinished Threw = True"
| "isFinished _ = False"

text \<open>
  What the local variables of a resource request satisfy: \<^verbatim>\<open>webviewId\<close> consists of
  the characters that the pattern of \<^verbatim>\<open>getWebviewIdForClient\<close> admits, and the outer
  iframe, once found, is a client that \<^verbatim>\<open>getOuterIframeClient\<close> accepts for it.
\<close>

fun localsOk :: "task \<Rightarrow> bool" where
  "localsOk (Resource_AwaitMatchAll s p) = list_all isIdChar s"
| "localsOk (Resource_AwaitOuter s p None) = list_all isIdChar s"
| "localsOk (Resource_AwaitOuter s p (Some pc)) = (list_all isIdChar s \<and> isOuterIframeOf s pc)"
| "localsOk (Resource_AwaitEntry s p a) = list_all isIdChar s"
| "localsOk _ = True"

subsection \<open>What holds in every state of the worker\<close>

text \<open>
  The resource store is one that \<^verbatim>\<open>create\<close> and \<^verbatim>\<open>resolve\<close> can build; a task that waits
  for the entry of its key waits for the promise that the store holds under that key;
  for every key, one \<^verbatim>\<open>load-resource\<close> message has been posted when the store has an
  entry for it and none otherwise; the local variables of every task are as \<open>localsOk\<close>
  says, and every \<^verbatim>\<open>load-resource\<close> message went to a client that
  \<^verbatim>\<open>getOuterIframeClient\<close> accepts for the \<^verbatim>\<open>webviewId\<close> of the request that posted it.
\<close>

definition world_ok :: "world \<Rightarrow> bool" where
  "world_ok w =
     (store_ok (resourceRequestStore w)
      \<and> (\<forall>s p a. Resource_AwaitEntry s p a \<in> set (tasks w) \<longrightarrow>
            RequestStore_get (resourceRequestStore w) s p = Some a)
      \<and> (\<forall>k. length (advisories w k)
            = (if map_of (store_map (resourceRequestStore w)) k = None then 0 else 1))
      \<and> (\<forall>x \<in> set (tasks w). localsOk x)
      \<and> (\<forall>k. \<forall>x \<in> set (advisories w k).
            list_all isIdChar (fst x) \<and> isOuterIframeOf (fst x) (fst (snd x))))"

subsection \<open>The kinds of step\<close>

text \<open>
  Seen from the resource store and the tasks that wait for its entries, a step of the
  event loop is one of five things.
  \<^item> \<open>quiet\<close>: the resource store and the \<^verbatim>\<open>load-resource\<close> messages stay, and at most one
    task is added or changed, neither from nor to waiting for an entry, nor from having
    ended, and its local variables stay as \<open>localsOk\<close> says;
  \<^item> \<open>resolves\<close>: a message resolves a key of the resource store;
  \<^item> \<open>joins\<close>: a request finds the entry of its key and waits for it (line 176);
  \<^item> \<open>creates\<close>: a request finds no entry, posts \<^verbatim>\<open>load-resource\<close>, creates the entry and
    waits for it (lines 179 to 185);
  \<^item> \<open>releases\<close>: a waiting request receives the value of its promise.
\<close>

definition quiet :: "world \<Rightarrow> world \<Rightarrow> bool" where
  "quiet w w' =
     (resourceRequestStore w' = resourceRequestStore w
      \<and> (\<forall>k. advisories w' k = advisories w k)
      \<and> (tasks w' = tasks w
          \<or> (\<exists>x. tasks w' = tasks w @ [x] \<and> \<not> isEntryWait x \<and> localsOk x)
          \<or> (\<exists>t x. t < length (tasks w) \<and> tasks w' = (tasks w)[t := x]
                \<and> \<not> isEntryWait x \<and> (localsOk (tasks w ! t) \<longrightarrow> localsOk x)
                \<and> \<not> isEntryWait (tasks w ! t) \<and> \<not> isFinished (tasks w ! t))))"

definition resolves :: "world \<Rightarrow> world \<Rightarrow> bool" where
  "resolves w w' =
     (\<exists>s p v. resourceRequestStore w' = snd (RequestStore_resolve (resourceRequestStore w) s p v)
        \<and> tasks w' = tasks w \<and> posted w' = posted w)"

definition joins :: "world \<Rightarrow> world \<Rightarrow> bool" where
  "joins w w' =
     (\<exists>t s p pc a. t < length (tasks w) \<and> tasks w ! t = Resource_AwaitOuter s p (Some pc)
        \<and> RequestStore_get (resourceRequestStore w) s p = Some a
        \<and> w' = w\<lparr>tasks := (tasks w)[t := Resource_AwaitEntry s p a]\<rparr>)"

definition creates :: "world \<Rightarrow> world \<Rightarrow> bool" where
  "creates w w' =
     (\<exists>t s p pc. t < length (tasks w) \<and> tasks w ! t = Resource_AwaitOuter s p (Some pc)
        \<and> RequestStore_get (resourceRequestStore w) s p = None
        \<and> w' = w\<lparr>posted := posted w @ [(s, pc, LoadResource p)],
                  resourceRequestStore := snd (RequestStore_create (resourceRequestStore w) s p),
                  tasks := (tasks w)[t := Resource_AwaitEntry s p
                            (length (promises (resourceRequestStore w)))]\<rparr>)"

definition releases :: "world \<Rightarrow> world \<Rightarrow> bool" where
  "releases w w' =
     (\<exists>t s p a v. t < length (tasks w) \<and> tasks w ! t = Resource_AwaitEntry s p a
        \<and> promise_at (resourceRequestStore w) a = Some (Fulfilled v)
        \<and> w' = w\<lparr>tasks := (tasks w)[t := settle (resolveResourceEntry v)]\<rparr>)"

text \<open>
  Task \<open>t\<close> still waits for the promise \<open>a\<close> of the key \<open>(s, p)\<close>, or has ended as
  \<^verbatim>\<open>resolveResourceEntry\<close> of \<open>v\<close> does.
\<close>

definition served ::
  "world \<Rightarrow> nat \<Rightarrow> string \<Rightarrow> string \<Rightarrow> nat \<Rightarrow> ResourceEntry option \<Rightarrow> bool" where
  "served w t s p a v =
     (t < length (tasks w)
      \<and> (tasks w ! t = Resource_AwaitEntry s p a
          \<or> tasks w ! t = settle (resolveResourceEntry v)))"

subsection \<open>Example runs\<close>

text \<open>
  Three requests of the webview \<^verbatim>\<open>s1\<close> for the same resource, interleaved at their
  suspension points, up to the moment all three wait for the entry.
\<close>

definition ex_three_schedule :: "event list" where
  "ex_three_schedule =
     [Fetch ex_event ex_url, Fetch ex_event ex_url, ClientsGetSettled 0 (Some ex_inner),
      Fetch ex_event ex_url, ClientsGetSettled 2 (Some ex_inner),
      MatchAllSettled 0 [ex_inner, ex_outer], ClientsGetSettled 1 (Some ex_inner),
      MatchAllSettled 2 [ex_outer, ex_inner], Continue 2,
      MatchAllSettled 1 [ex_inner, ex_outer], Continue 0, Continue 1]"

definition ex_three :: world where
  "ex_three =
     \<lparr>resourceRequestStore = \<lparr>store_map = [(''s1@@@/img.png'', 0)], promises = [Pending]\<rparr>,
      localhostRequestStore = RequestStore_new,
      tasks = [Resource_AwaitEntry ''s1'' ''/img.png'' 0,
               Resource_AwaitEntry ''s1'' ''/img.png'' 0,
               Resource_AwaitEntry ''s1'' ''/img.png'' 0],
      posted = [(''s1'', ex_outer, LoadResource ''/img.png'')],
      console = []\<rparr>"

text \<open>
  One request, answered: the outer iframe has sent the resource and the request has
  returned. Then a second request for the same resource, up to its return.
\<close>

definition ex_answered :: world where
  "ex_answered =
     \<lparr>resourceRequestStore =
        \<lparr>store_map = [(''s1@@@/img.png'', 0)],
         promises = [Fulfilled (Some \<lparr>body = ''BYTES'', mime = ''image/png''\<rparr>)]\<rparr>,
      localhostRequestStore = RequestStore_new,
      tasks = [Returned (Respond \<lparr>status = 200, responseBody = Some ''BYTES'',
                 headers = [(''Content-Type'', ''image/png'')]\<rparr>)],
      posted = [(''s1'', ex_outer, LoadResource ''/img.png'')],
      console = []\<rparr>"

definition ex_answered_schedule :: "event list" where
  "ex_answered_schedule =
     [Fetch ex_event ex_url, ClientsGetSettled 0 (Some ex_inner),
      MatchAllSettled 0 [ex_inner, ex_outer], Continue 0,
      Message ex_outer (DidLoadResource ''/img.png'' 200 ''BYTES'' ''image/png''),
      Continue 0]"

definition ex_second_schedule :: "event list" where
  "ex_second_schedule =
     [Fetch ex_event ex_url, ClientsGetSettled 1 (Some ex_inner),
      MatchAllSettled 1 [ex_inner, ex_outer], Continue 1, Continue 1]"

text \<open>
  A request to \<^verbatim>\<open>localhost:8080\<close> of the webview \<^verbatim>\<open>s1\<close> that waits for its entry, which
  the outer iframe has resolved to the origin \<^verbatim>\<open>http://localhost:9090\<close>.
\<close>

definition ex_redirect_waiting :: world where
  "ex_redirect_waiting =
     \<lparr>resourceRequestStore = RequestStore_new,
      localhostRequestStore =
        \<lparr>store_map = [(''s1@@@http://localhost:8080'', 0)],
         promises = [Fulfilled (Some ''http://localhost:9090'')]\<rparr>,
      tasks = [Localhost_AwaitEntry ex_localhost_event ex_localhost_url ''s1'' 0],
      posted = [(''s1'', ex_outer, LoadLocalhost ''http://localhost:8080'')],
      console = []\<rparr>"

text \<open>
  A webview with identifier \<^verbatim>\<open>a\<close>, while the outer iframes of the webviews \<^verbatim>\<open>s1\<close>, \<^verbatim>\<open>ab\<close>
  and \<^verbatim>\<open>a\<close> are connected: two requests of its inner frame for the same resource,
  interleaved, up to the moment both wait for the entry; then the answer of the client
  that received the \<^verbatim>\<open>load-resource\<close> message, after which both requests run on. And two
  requests of the same inner frame to \<^verbatim>\<open>localhost:8080\<close>, interleaved in the same way, up
  to the moment both wait.
\<close>

definition ex_inner_a :: client where
  "ex_inner_a = \<lparr>client_url = \<lparr>origin = ''https://w'', host = ''w'',
     pathname = ''/webview/index.html'', search = ''?id=a''\<rparr>\<rparr>"

definition ex_misrouted_schedule :: "event list" where
  "ex_misrouted_schedule =
     [Fetch ex_event ex_url, Fetch ex_event ex_url,
      ClientsGetSettled 0 (Some ex_inner_a), ClientsGetSettled 1 (Some ex_inner_a),
      MatchAllSettled 0 [ex_inner_a, ex_outer, ex_outer_ab, ex_outer_a],
      MatchAllSettled 1 [ex_inner_a, ex_outer, ex_outer_ab, ex_outer_a],
      Continue 0, Continue 1]"

definition ex_misrouted :: world where
  "ex_misrouted =
     \<lparr>resourceRequestStore = \<lparr>store_map = [(''a@@@/img.png'', 0)], promises = [Pending]\<rparr>,
      localhostRequestStore = RequestStore_new,
      tasks = [Resource_AwaitEntry ''a'' ''/img.png'' 0,
               Resource_AwaitEntry ''a'' ''/img.png'' 0],
      posted = [(''a'', ex_outer_ab, LoadResource ''/img.png'')],
      console = []\<rparr>"

definition ex_misrouted_answer :: "event list" where
  "ex_misrouted_answer =
     [Message ex_outer_ab (DidLoadResource ''/img.png'' 200 ''BYTES'' ''image/png''),
      Continue 0, Continue 1]"

definition ex_misrouted_localhost_schedule :: "event list" where
  "ex_misrouted_localhost_schedule =
     [Fetch ex_localhost_event ex_localhost_url, Fetch ex_localhost_event ex_localhost_url,
      ClientsGetSettled 0 (Some ex_inner_a), ClientsGetSettled 1 (Some ex_inner_a),
      MatchAllSettled 0 [ex_inner_a, ex_outer, ex_outer_ab, ex_outer_a],
      MatchAllSettled 1 [ex_inner_a, ex_outer, ex_outer_ab, ex_outer_a],
      Continue 0, Continue 1]"

section \<open>Properties\<close>

subsection \<open>The request store\<close>

lemma Map_set_map_of: "map_of (Map_set k v ps) = (map_of ps)(k \<mapsto> v)"
  by (induction ps) (auto simp: fun_eq_iff)

lemma Map_set_fresh: "map_of ps k = None \<Longrightarrow> Map_set k v ps = ps @ [(k, v)]"
  by (induction ps) (auto split: if_splits)

lemma RequestStore_key_session:
  "RequestStore_key s1 p = RequestStore_key s2 p \<Longrightarrow> s1 = s2"
  by (simp add: RequestStore_key_def)

lemma resolve_map: "store_map (snd (RequestStore_resolve st s p v)) = store_map st"
  by (simp add: RequestStore_resolve_def split: option.splits)

lemma resolve_get:
  "RequestStore_get (snd (RequestStore_resolve st s p v)) s' p' = RequestStore_get st s' p'"
  by (simp add: RequestStore_get_def resolve_map)

lemma resolve_length:
  "length (promises (snd (RequestStore_resolve st s p v))) = length (promises st)"
  by (simp add: RequestStore_resolve_def split: option.splits)

lemma resolve_promise_at_other:
  "RequestStore_get st s p \<noteq> Some a \<Longrightarrow>
   promise_at (snd (RequestStore_resolve st s p v)) a = promise_at st a"
  by (auto simp: RequestStore_resolve_def promise_at_def split: option.splits)

lemma resolve_promise_at_same:
  "RequestStore_get st s p = Some a \<Longrightarrow>
   promise_at (snd (RequestStore_resolve st s p v)) a
     = map_option (promise_resolve v) (promise_at st a)"
  by (auto simp: RequestStore_resolve_def promise_at_def split: option.splits)

lemma promise_resolve_idem:
  "promise_resolve v2 (promise_resolve v1 q) = promise_resolve v1 q"
  by (cases q) (simp_all add: promise_resolve_def)

lemma list_update_resolve_twice:
  "xs[e := promise_resolve v2 (xs[e := promise_resolve v1 (xs ! e)] ! e)]
     = xs[e := promise_resolve v1 (xs ! e)]"
proof (cases "e < length xs")
  case True
  then show ?thesis by (simp add: promise_resolve_idem)
next
  case False
  then show ?thesis by (simp add: list_update_beyond)
qed

lemma resolve_twice:
  assumes "RequestStore_resolve st s p v1 = (True, st1)"
  shows "RequestStore_resolve st1 s p v2 = (True, st1)"
proof (cases "RequestStore_get st s p")
  case None
  with assms show ?thesis by (simp add: RequestStore_resolve_def)
next
  case (Some e)
  with assms have st1:
    "st1 = st\<lparr>promises := (promises st)[e := promise_resolve v1 (promises st ! e)]\<rparr>"
    by (simp add: RequestStore_resolve_def)
  have "RequestStore_get st1 s p = Some e"
    using Some by (simp add: st1 RequestStore_get_def)
  then show ?thesis
    by (simp add: RequestStore_resolve_def st1 list_update_resolve_twice)
qed

lemma ex_outer_id: "getWebviewIdForClient ex_outer = Some ''s1''"
  by (simp add: getWebviewIdForClient_def ex_outer_def isIdChar_def isWordChar_def)

lemma ex_inner_id: "getWebviewIdForClient ex_inner = Some ''s1''"
  by (simp add: getWebviewIdForClient_def ex_inner_def isIdChar_def isWordChar_def)

lemma ex_waiting_reached:
  "run ''https://w'' [Fetch ex_event ex_url, ClientsGetSettled 0 (Some ex_inner),
      MatchAllSettled 0 [ex_inner, ex_outer], Continue 0] init_world = ex_waiting"
  by code_simp

lemma store_ok_new: "store_ok RequestStore_new"
  by (simp add: store_ok_def RequestStore_new_def)

lemma store_ok_create: 
  assumes "store_ok st" shows "store_ok (snd (RequestStore_create st s p))"
proof (cases "RequestStore_get st s p")
  case None
  then have k: "RequestStore_key s p \<notin> fst ` set (store_map st)"
    by (simp add: RequestStore_get_def map_of_eq_None_iff)
  have fresh: "length (promises st) \<notin> snd ` set (store_map st)"
    using assms by (auto simp: store_ok_def list_all_iff)
  show ?thesis
    using None assms k fresh
    by (auto simp: RequestStore_create_def Let_def store_ok_def list_all_iff
        Map_set_fresh RequestStore_get_def)
next
  case (Some e)
  with assms show ?thesis by (simp add: RequestStore_create_def)
qed

lemma store_ok_resolve:
  "store_ok st \<Longrightarrow> store_ok (snd (RequestStore_resolve st s p v))"
  by (simp add: store_ok_def resolve_map resolve_length)

lemma store_ok_foldl: "store_ok st \<Longrightarrow> store_ok (foldl apply_op st ops)"
proof (induction ops arbitrary: st)
  case Nil
  then show ?case by simp
next
  case (Cons x ops)
  have "store_ok (apply_op st x)"
    using Cons.prems by (cases x) (simp_all add: store_ok_create store_ok_resolve)
  then show ?case by (simp add: Cons.IH)
qed

lemma store_ok_after: "store_ok (store_after ops)"
  by (simp add: store_after_def store_ok_foldl store_ok_new)

lemma store_ok_inj:
  assumes "store_ok st" "map_of (store_map st) k1 = Some e" "map_of (store_map st) k2 = Some e"
  shows "k1 = k2"
proof -
  have d: "distinct (map snd (store_map st))" using assms(1) by (simp add: store_ok_def)
  have "(k1, e) \<in> set (store_map st)" "(k2, e) \<in> set (store_map st)"
    using assms(2,3) by (auto dest: map_of_SomeD)
  then show ?thesis
    using d by (metis distinct_map inj_on_def snd_conv fst_conv)
qed

subsection \<open>Responses from the constructor\<close>

lemma dropWhile_hd_id:
  "xs \<noteq> [] \<Longrightarrow> \<not> P (hd xs) \<Longrightarrow> dropWhile P xs = xs"
  by (cases xs) simp_all

text \<open>A value with no HTTP whitespace at either end is its own normal form.\<close>

lemma normalizeValue_id:
  "v = [] \<or> (\<not> isHttpWhitespace (hd v) \<and> \<not> isHttpWhitespace (last v))
     \<Longrightarrow> normalizeValue v = v"
proof (cases "v = []")
  case True
  then show ?thesis by (simp add: normalizeValue_def)
next
  case False
  assume "v = [] \<or> (\<not> isHttpWhitespace (hd v) \<and> \<not> isHttpWhitespace (last v))"
  with False have h: "\<not> isHttpWhitespace (hd v)" and l: "\<not> isHttpWhitespace (last v)"
    by simp_all
  have 1: "dropWhile isHttpWhitespace v = v"
    using False h by (rule dropWhile_hd_id)
  have "rev v \<noteq> []" using False by simp
  moreover have "\<not> isHttpWhitespace (hd (rev v))" using False l by (simp add: hd_rev)
  ultimately have 2: "dropWhile isHttpWhitespace (rev v) = rev v"
    by (rule dropWhile_hd_id)
  show ?thesis by (simp add: normalizeValue_def 1 2)
qed

lemma contentType_name:
  "isHeaderName ''Content-Type''" "\<not> isForbiddenResponseHeaderName ''Content-Type''"
  by (simp_all add: isHeaderName_def isTokenChar_def isForbiddenResponseHeaderName_def
      sameHeaderName_def toLower_def)

lemma location_name:
  "isHeaderName ''Location''" "\<not> isForbiddenResponseHeaderName ''Location''"
  by (simp_all add: isHeaderName_def isTokenChar_def isForbiddenResponseHeaderName_def
      sameHeaderName_def toLower_def)

text \<open>The not-found response is what the constructor gives for its arguments.\<close>

lemma Response_new_notFound:
  "Response_new (Some (Text ''Not Found'')) 404 [] = Inr notFoundResponse"
  by (simp add: Response_new_def notFoundResponse_def)

text \<open>A header value is its own normal form.\<close>

lemma isHeaderValue_normal:
  assumes "isHeaderValue v"
  shows "normalizeValue v = v"
proof (cases "v = []")
  case True
  then show ?thesis by (simp add: normalizeValue_def)
next
  case False
  then have "hd v \<in> set v" "last v \<in> set v"
    by simp_all
  then have "\<not> isHttpWhitespace (hd v) \<and> \<not> isHttpWhitespace (last v)"
    using assms False by (auto simp: isHeaderValue_def isHttpWhitespace_def list_all_iff)
  then show ?thesis by (simp add: normalizeValue_id)
qed

text \<open>The redirect that the constructor gives for a location.\<close>

lemma Response_new_location:
  "Response_new None 302 [(''Location'', v)]
     = (if isHeaderValue (normalizeValue v)
        then Inr \<lparr>status = 302, responseBody = None,
               headers = [(''Location'', normalizeValue v)]\<rparr>
        else Inl TypeError)"
  by (simp add: Response_new_def location_name)

lemma resolveResourceEntry_Some:
  "resolveResourceEntry (Some \<lparr>body = b, mime = m\<rparr>)
     = (if isHeaderValue (normalizeValue m)
        then Inr \<lparr>status = 200, responseBody = Some b,
               headers = [(''Content-Type'', normalizeValue m)]\<rparr>
        else Inl TypeError)"
  by (simp add: resolveResourceEntry_def Response_new_def contentType_name)

lemma resolveResourceEntry_png:
  "resolveResourceEntry (Some \<lparr>body = b, mime = ''image/png''\<rparr>)
     = Inr \<lparr>status = 200, responseBody = Some b,
         headers = [(''Content-Type'', ''image/png'')]\<rparr>"
  by (simp add: resolveResourceEntry_Some normalizeValue_def isHttpWhitespace_def
      isHeaderValue_def)

subsection \<open>Materialising a resource\<close>




subsection \<open>Resolving a key that has no entry\<close>

text \<open>
  C8. For every key and value, \<^verbatim>\<open>resolve\<close> on a store with no entry for the key returns
  \<^verbatim>\<open>false\<close> and the store as it was; no branch of it raises. The message listener then
  only logs: after a \<^verbatim>\<open>did-load-resource\<close> (or \<^verbatim>\<open>did-load-localhost\<close>) for a key without
  entry, the state differs from the state before in one more \<^verbatim>\<open>console.log\<close> line.
\<close>

theorem orphan_resolve:
  "(RequestStore_get st s p = None \<longrightarrow> RequestStore_resolve st s p v = (False, st))
   \<and> (getWebviewIdForClient source = Some s
        \<and> RequestStore_get (resourceRequestStore w) s p = None \<longrightarrow>
      messageListener source (DidLoadResource p code dat mim) w
        = w\<lparr>console := console w @ [[''Could not resolve unknown resource'', p]]\<rparr>)
   \<and> (getWebviewIdForClient source = Some s
        \<and> RequestStore_get (localhostRequestStore w) s p = None \<longrightarrow>
      messageListener source (DidLoadLocalhost p loc) w
        = w\<lparr>console := console w @ [[''Could not resolve unknown localhost'', p]]\<rparr>)"
  by (simp add: RequestStore_resolve_def messageListener_def)

theorem orphan_resolve_witness:
  "RequestStore_get (RequestStore_new :: string option RequestStore) ''s1'' ''/img.png'' = None
   \<and> RequestStore_resolve (RequestStore_new :: string option RequestStore)
         ''s1'' ''/img.png'' (Some ''x'') = (False, RequestStore_new)
   \<and> getWebviewIdForClient ex_outer = Some ''s1''
   \<and> messageListener ex_outer (DidLoadResource ''/img.png'' 200 ''BYTES'' ''image/png'')
         init_world
       = init_world\<lparr>console := [[''Could not resolve unknown resource'', ''/img.png'']]\<rparr>"
proof -
  have g: "RequestStore_get (RequestStore_new :: string option RequestStore)
             ''s1'' ''/img.png'' = None"
    by (simp add: RequestStore_get_def RequestStore_new_def)
  have g': "RequestStore_get (resourceRequestStore init_world) ''s1'' ''/img.png'' = None"
    by (simp add: RequestStore_get_def RequestStore_new_def init_world_def)
  have c: "console init_world = []"
    by (simp add: init_world_def)
  show ?thesis
    using g g' ex_outer_id c
      orphan_resolve [of "RequestStore_new :: string option RequestStore" "''s1''"
        "''/img.png''" "Some ''x''" ex_outer init_world 200 "''BYTES''" "''image/png''" None]
    by simp
qed

subsection \<open>Resolving twice\<close>

text \<open>
  C10. The first write wins. When \<^verbatim>\<open>resolve(K, V1)\<close> has returned \<^verbatim>\<open>true\<close>, a later
  \<^verbatim>\<open>resolve(K, V2)\<close> returns \<^verbatim>\<open>true\<close> as well and leaves the store exactly as the first
  call left it. When the entry was pending before the first call, the promise of the
  entry holds \<open>V1\<close> after the first call and still after the second, so whoever reads it,
  before or after the second call, reads \<open>V1\<close>.
\<close>

theorem first_write_wins:
  assumes "RequestStore_resolve st s p v1 = (True, st1)"
  shows "RequestStore_resolve st1 s p v2 = (True, st1)
    \<and> (\<forall>e. RequestStore_get st s p = Some e \<and> promise_at st e = Some Pending \<longrightarrow>
          RequestStore_get st1 s p = Some e
          \<and> promise_at st1 e = Some (Fulfilled v1)
          \<and> promise_at (snd (RequestStore_resolve st1 s p v2)) e = Some (Fulfilled v1))"
proof -
  have st1: "st1 = snd (RequestStore_resolve st s p v1)"
    using assms by simp
  have again: "RequestStore_resolve st1 s p v2 = (True, st1)"
    using assms by (rule resolve_twice)
  have "RequestStore_get st1 s p = Some e \<and> promise_at st1 e = Some (Fulfilled v1)"
    if "RequestStore_get st s p = Some e" "promise_at st e = Some Pending" for e
    using that by (simp add: st1 resolve_get resolve_promise_at_same promise_resolve_def)
  then show ?thesis
    using again by simp
qed

theorem first_write_wins_witness:
  "RequestStore_resolve (resourceRequestStore ex_waiting) ''s1'' ''/img.png'' (Some \<lparr>body = ''A'', mime = ''t''\<rparr>)
     = (True, \<lparr>store_map = [(''s1@@@/img.png'', 0)], promises = [Fulfilled (Some \<lparr>body = ''A'', mime = ''t''\<rparr>)]\<rparr>)
   \<and> RequestStore_resolve \<lparr>store_map = [(''s1@@@/img.png'', 0)], promises = [Fulfilled (Some \<lparr>body = ''A'', mime = ''t''\<rparr>)]\<rparr>
        ''s1'' ''/img.png'' None
     = (True, \<lparr>store_map = [(''s1@@@/img.png'', 0)], promises = [Fulfilled (Some \<lparr>body = ''A'', mime = ''t''\<rparr>)]\<rparr>)
   \<and> promise_at (snd (RequestStore_resolve \<lparr>store_map = [(''s1@@@/img.png'', 0)], promises = [Fulfilled (Some \<lparr>body = ''A'', mime = ''t''\<rparr>)]\<rparr>
        ''s1'' ''/img.png'' None)) 0 = Some (Fulfilled (Some \<lparr>body = ''A'', mime = ''t''\<rparr>))"
proof -
  let ?v = "Some \<lparr>body = ''A'', mime = ''t''\<rparr>"
  let ?st1 = "\<lparr>store_map = [(''s1@@@/img.png'', 0)], promises = [Fulfilled ?v]\<rparr>"
  have r: "RequestStore_resolve (resourceRequestStore ex_waiting) ''s1'' ''/img.png'' ?v = (True, ?st1)"
    by (simp add: ex_waiting_def RequestStore_resolve_def RequestStore_get_def
        RequestStore_key_def promise_resolve_def)
  have g: "RequestStore_get (resourceRequestStore ex_waiting) ''s1'' ''/img.png'' = Some 0"
    by (simp add: ex_waiting_def RequestStore_get_def RequestStore_key_def)
  have p: "promise_at (resourceRequestStore ex_waiting) 0 = Some Pending"
    by (simp add: ex_waiting_def promise_at_def)
  show ?thesis
    using r g p first_write_wins [OF r, of None] by simp
qed

subsection \<open>Two webviews asking for the same path\<close>

text \<open>
  C7. For two different identifiers \<open>s1\<close>, \<open>s2\<close> and any path \<open>p\<close>, in every store
  that \<^verbatim>\<open>create\<close> and \<^verbatim>\<open>resolve\<close> can build: the keys of \<open>(s1, p)\<close> and \<open>(s2, p)\<close>
  differ, their entries (when both exist) are different promises, and
  \<^verbatim>\<open>resolve(s1, p, v)\<close> leaves the map, the number of promises, the promise of
  \<open>(s2, p)\<close> and the promise of every entry under another key as they were.
\<close>

theorem session_isolation:
  assumes "s1 \<noteq> s2"
  shows "RequestStore_key s1 p \<noteq> RequestStore_key s2 p
    \<and> (\<forall>e1 e2. RequestStore_get (store_after ops) s1 p = Some e1
          \<and> RequestStore_get (store_after ops) s2 p = Some e2 \<longrightarrow> e1 \<noteq> e2)
    \<and> store_map (snd (RequestStore_resolve (store_after ops) s1 p v)) = store_map (store_after ops)
    \<and> length (promises (snd (RequestStore_resolve (store_after ops) s1 p v)))
        = length (promises (store_after ops))
    \<and> (\<forall>e2. RequestStore_get (store_after ops) s2 p = Some e2 \<longrightarrow>
          promise_at (snd (RequestStore_resolve (store_after ops) s1 p v)) e2
            = promise_at (store_after ops) e2)
    \<and> (\<forall>s' p' e. RequestStore_key s' p' \<noteq> RequestStore_key s1 p
          \<and> RequestStore_get (store_after ops) s' p' = Some e \<longrightarrow>
          promise_at (snd (RequestStore_resolve (store_after ops) s1 p v)) e
            = promise_at (store_after ops) e)"
proof -
  let ?st = "store_after ops"
  have ok: "store_ok ?st" by (rule store_ok_after)
  have keys: "RequestStore_key s1 p \<noteq> RequestStore_key s2 p"
    using assms RequestStore_key_session by blast
  have other: "promise_at (snd (RequestStore_resolve ?st s1 p v)) e = promise_at ?st e"
    if "RequestStore_key s' p' \<noteq> RequestStore_key s1 p" "RequestStore_get ?st s' p' = Some e"
    for s' p' e
  proof -
    have "RequestStore_get ?st s1 p \<noteq> Some e"
      using that store_ok_inj [OF ok] by (auto simp: RequestStore_get_def)
    then show ?thesis by (rule resolve_promise_at_other)
  qed
  have apart: "e1 \<noteq> e2"
    if "RequestStore_get ?st s1 p = Some e1" "RequestStore_get ?st s2 p = Some e2" for e1 e2
    using that keys store_ok_inj [OF ok] by (auto simp: RequestStore_get_def)
  show ?thesis
    using keys other apart by (simp add: resolve_map resolve_length) (metis keys)
qed

theorem session_isolation_witness:
  "''s1'' \<noteq> ''s2''
   \<and> RequestStore_get (store_after [Create ''s1'' ''/img.png'', Create ''s2'' ''/img.png''
          :: string store_op]) ''s1'' ''/img.png'' = Some 0
   \<and> RequestStore_get (store_after [Create ''s1'' ''/img.png'', Create ''s2'' ''/img.png''
          :: string store_op]) ''s2'' ''/img.png'' = Some 1
   \<and> promise_at (snd (RequestStore_resolve
          (store_after [Create ''s1'' ''/img.png'', Create ''s2'' ''/img.png'']) 
          ''s1'' ''/img.png'' ''x'')) 1 = Some Pending"
proof -
  let ?st = "store_after [Create ''s1'' ''/img.png'', Create ''s2'' ''/img.png''] :: string RequestStore"
  have d: "''s1'' \<noteq> ''s2''" by simp
  have g1: "RequestStore_get ?st ''s1'' ''/img.png'' = Some 0" by code_simp
  have g2: "RequestStore_get ?st ''s2'' ''/img.png'' = Some 1" by code_simp
  have p: "promise_at ?st 1 = Some Pending" by code_simp
  show ?thesis
    using d g1 g2 p session_isolation [OF d, of "''/img.png''"
        "[Create ''s1'' ''/img.png'', Create ''s2'' ''/img.png'']" "''x''"]
    by simp
qed

subsection \<open>The redirect of a localhost request\<close>

lemma getSubstitution_plain:
  "CHR ''$'' \<notin> set r \<Longrightarrow> getSubstitution m a g (r @ ''$1'') = r @ g"
proof (induction r)
  case Nil
  show ?case by simp
next
  case (Cons x r)
  then show ?case by (cases r) auto
qed

lemma ex_redirect_waiting_reached:
  "run ''https://w'' [Fetch ex_localhost_event ex_localhost_url,
      ClientsGetSettled 0 (Some ex_inner), MatchAllSettled 0 [ex_inner, ex_outer], Continue 0,
      Message ex_outer (DidLoadLocalhost ''http://localhost:8080''
        (Some ''http://localhost:9090''))] init_world
   = ex_redirect_waiting"
  by code_simp

text \<open>
  C5. When the entry of a localhost request resolves to a replacement origin \<open>r\<close> (not
  empty, no dollar sign in it), the location that \<^verbatim>\<open>resolveRedirect\<close> computes is the
  request URL with its origin replaced by \<open>r\<close> and the rest kept: for a request URL
  \<open>origin @ rest\<close>, where \<open>rest\<close> is empty or starts with a slash, it is \<open>r @ rest\<close>.
  \<^verbatim>\<open>resolveRedirect\<close> hands it to the constructor; when it is a header value, as a
  location made of an origin and the rest of a serialised URL is, the answer has status
  302 and the header \<^verbatim>\<open>Location\<close> with exactly \<open>r @ rest\<close>, and that is what a request
  returns that waited for the entry. The witness is the example of the specification:
  \<^verbatim>\<open>http://localhost:8080/app/page?x=1\<close> and \<^verbatim>\<open>http://localhost:9090\<close> give
  \<^verbatim>\<open>http://localhost:9090/app/page?x=1\<close>.
\<close>

theorem redirect_location:
  assumes "r \<noteq> []" and "CHR ''$'' \<notin> set r"
    and "isRegExpLiteral (origin requestUrl)"
    and "request_url event = origin requestUrl @ rest"
    and "rest = [] \<or> hd rest = CHR ''/''"
  shows "replaceOrigin (request_url event) (origin requestUrl) (r @ ''$1'') = r @ rest
    \<and> resolveRedirect event requestUrl (Some r)
        = (if isHeaderValue (normalizeValue (r @ rest))
           then Inr (Respond \<lparr>status = 302, responseBody = None,
                  headers = [(''Location'', normalizeValue (r @ rest))]\<rparr>)
           else Inl TypeError)
    \<and> (isHeaderValue (r @ rest) \<longrightarrow>
         resolveRedirect event requestUrl (Some r)
           = Inr (Respond \<lparr>status = 302, responseBody = None,
               headers = [(''Location'', r @ rest)]\<rparr>)
         \<and> (\<forall>w t s a. t < length (tasks w)
               \<and> tasks w ! t = Localhost_AwaitEntry event requestUrl s a
               \<and> promise_at (localhostRequestStore w) a = Some (Fulfilled (Some r)) \<longrightarrow>
               tasks (continue t w) ! t
                 = Returned (Respond \<lparr>status = 302, responseBody = None,
                     headers = [(''Location'', r @ rest)]\<rparr>)))"
proof -
  have loc: "replaceOrigin (request_url event) (origin requestUrl) (r @ ''$1'') = r @ rest"
  proof (cases rest)
    case Nil
    with assms show ?thesis
      by (simp add: replaceOrigin_def startsWith_def getSubstitution_plain)
  next
    case (Cons c cs)
    with assms show ?thesis
      by (simp add: replaceOrigin_def startsWith_def getSubstitution_plain)
  qed
  have res: "resolveRedirect event requestUrl (Some r)
        = (if isHeaderValue (normalizeValue (r @ rest))
           then Inr (Respond \<lparr>status = 302, responseBody = None,
                  headers = [(''Location'', normalizeValue (r @ rest))]\<rparr>)
           else Inl TypeError)"
    using assms(1) by (simp add: resolveRedirect_def loc Response_new_location)
  have val: "resolveRedirect event requestUrl (Some r)
           = Inr (Respond \<lparr>status = 302, responseBody = None,
               headers = [(''Location'', r @ rest)]\<rparr>)"
    if "isHeaderValue (r @ rest)"
    using that by (simp add: res isHeaderValue_normal)
  have ret: "tasks (continue t w) ! t
        = Returned (Respond \<lparr>status = 302, responseBody = None,
            headers = [(''Location'', r @ rest)]\<rparr>)"
    if "isHeaderValue (r @ rest)"
      "t < length (tasks w) \<and> tasks w ! t = Localhost_AwaitEntry event requestUrl s a
         \<and> promise_at (localhostRequestStore w) a = Some (Fulfilled (Some r))" for w t s a
    using that(2) by (simp add: continue_def val [OF that(1)])
  show ?thesis
    using loc res val ret by blast
qed

theorem redirect_location_witness:
  "request_url ex_localhost_event = ''http://localhost:8080/app/page?x=1''
   \<and> origin ex_localhost_url = ''http://localhost:8080''
   \<and> isHeaderValue ''http://localhost:9090/app/page?x=1''
   \<and> replaceOrigin (request_url ex_localhost_event) (origin ex_localhost_url)
         (''http://localhost:9090'' @ ''$1'')
       = ''http://localhost:9090/app/page?x=1''
   \<and> resolveRedirect ex_localhost_event ex_localhost_url (Some ''http://localhost:9090'')
     = Inr (Respond \<lparr>status = 302, responseBody = None,
         headers = [(''Location'', ''http://localhost:9090/app/page?x=1'')]\<rparr>)
   \<and> tasks ex_redirect_waiting ! 0
       = Localhost_AwaitEntry ex_localhost_event ex_localhost_url ''s1'' 0
   \<and> promise_at (localhostRequestStore ex_redirect_waiting) 0
       = Some (Fulfilled (Some ''http://localhost:9090''))
   \<and> tasks (continue 0 ex_redirect_waiting) ! 0
       = Returned (Respond \<lparr>status = 302, responseBody = None,
           headers = [(''Location'', ''http://localhost:9090/app/page?x=1'')]\<rparr>)"
proof -
  have h: "''http://localhost:9090'' \<noteq> []" "CHR ''$'' \<notin> set ''http://localhost:9090''"
    "isRegExpLiteral (origin ex_localhost_url)"
    "request_url ex_localhost_event = origin ex_localhost_url @ ''/app/page?x=1''"
    "''/app/page?x=1'' = [] \<or> hd ''/app/page?x=1'' = CHR ''/''"
    by (simp_all add: isRegExpLiteral_def ex_localhost_url_def ex_localhost_event_def)
  have v: "isHeaderValue (''http://localhost:9090'' @ ''/app/page?x=1'')"
    by (simp add: isHeaderValue_def)
  have t: "0 < length (tasks ex_redirect_waiting)"
    "tasks ex_redirect_waiting ! 0
       = Localhost_AwaitEntry ex_localhost_event ex_localhost_url ''s1'' 0"
    by (simp_all add: ex_redirect_waiting_def)
  have p: "promise_at (localhostRequestStore ex_redirect_waiting) 0
       = Some (Fulfilled (Some ''http://localhost:9090''))"
    by (simp add: ex_redirect_waiting_def promise_at_def)
  have u: "request_url ex_localhost_event = ''http://localhost:8080/app/page?x=1''"
    "origin ex_localhost_url = ''http://localhost:8080''"
    by (simp_all add: ex_localhost_url_def ex_localhost_event_def)
  note d = redirect_location [OF h]
  have l: "replaceOrigin (request_url ex_localhost_event) (origin ex_localhost_url)
         (''http://localhost:9090'' @ ''$1'')
       = ''http://localhost:9090'' @ ''/app/page?x=1''"
    using d by (rule conjunct1)
  have both: "resolveRedirect ex_localhost_event ex_localhost_url (Some ''http://localhost:9090'')
           = Inr (Respond \<lparr>status = 302, responseBody = None,
               headers = [(''Location'', ''http://localhost:9090'' @ ''/app/page?x=1'')]\<rparr>)
         \<and> (\<forall>w t s a. t < length (tasks w)
               \<and> tasks w ! t = Localhost_AwaitEntry ex_localhost_event ex_localhost_url s a
               \<and> promise_at (localhostRequestStore w) a
                   = Some (Fulfilled (Some ''http://localhost:9090'')) \<longrightarrow>
               tasks (continue t w) ! t
                 = Returned (Respond \<lparr>status = 302, responseBody = None,
                     headers = [(''Location'', ''http://localhost:9090'' @ ''/app/page?x=1'')]\<rparr>))"
    using d v by blast
  have c: "tasks (continue 0 ex_redirect_waiting) ! 0
       = Returned (Respond \<lparr>status = 302, responseBody = None,
           headers = [(''Location'', ''http://localhost:9090'' @ ''/app/page?x=1'')]\<rparr>)"
    using both [THEN conjunct2] t p by blast
  show ?thesis
    using u v l both [THEN conjunct1] t(2) p c by simp
qed

subsection \<open>The message \<^verbatim>\<open>did-load-resource\<close>\<close>



subsection \<open>Finding the outer iframe\<close>

text \<open>
  What \<^verbatim>\<open>getOuterIframeClient\<close> does return: the first client that passes its test, and
  nothing when no client passes it.
\<close>

lemma getOuterIframeClient_None:
  "getOuterIframeClient s cs = None \<longleftrightarrow> (\<forall>c \<in> set cs. \<not> isOuterIframeOf s c)"
  by (auto simp: getOuterIframeClient_def find_None_iff)

lemma getOuterIframeClient_Some:
  "getOuterIframeClient s cs = Some c \<longleftrightarrow>
     (\<exists>i < length cs. cs ! i = c \<and> isOuterIframeOf s c
        \<and> (\<forall>j < i. \<not> isOuterIframeOf s (cs ! j)))"
  by (auto simp: getOuterIframeClient_def find_Some_iff)

text \<open>
  C2, at an input where the code departs from it. \<^verbatim>\<open>getOuterIframeClient\<close> tests the
  query of a client with the unanchored pattern \<^verbatim>\<open>\bid=\<close> followed by the identifier, so
  for the identifier \<^verbatim>\<open>a\<close> it returns a client at the root path whose query is
  \<^verbatim>\<open>?id=ab\<close>, although \<^verbatim>\<open>getWebviewIdForClient\<close> reads the identifier of that client
  as \<^verbatim>\<open>ab\<close>; it does so when that client is the only one connected, and also when the
  client with the query \<^verbatim>\<open>?id=a\<close> is connected after it.
\<close>

theorem outer_iframe_prefix_match:
  "getOuterIframeClient ''a'' [ex_outer_ab] = Some ex_outer_ab
   \<and> getOuterIframeClient ''a'' [ex_outer_ab, ex_outer_a] = Some ex_outer_ab
   \<and> getWebviewIdForClient ex_outer_ab = Some ''ab''
   \<and> getWebviewIdForClient ex_outer_a = Some ''a''
   \<and> ex_outer_ab \<noteq> ex_outer_a"
  by (simp add: getOuterIframeClient_def isOuterIframeOf_def getWebviewIdForClient_def
      ex_outer_ab_def ex_outer_a_def startsWith_def isIdChar_def isWordChar_def)

subsection \<open>A request whose client is gone\<close>

lemma afterClientsGet_unknown_resource:
  "t < length (tasks w) \<Longrightarrow> tasks w ! t = Resource_AwaitClient u \<Longrightarrow>
   tasks (afterClientsGet t None w) ! t = Returned (Respond notFoundResponse)"
  by (simp add: afterClientsGet_def)

lemma afterClientsGet_unknown_localhost:
  "t < length (tasks w) \<Longrightarrow> tasks w ! t = Localhost_AwaitClient ev u \<Longrightarrow>
   tasks (afterClientsGet t None w) ! t = Returned Undefined"
  by (simp add: afterClientsGet_def)

text \<open>
  C9, at an input where the code departs from it. When \<^verbatim>\<open>clients.get\<close> finds no client,
  \<^verbatim>\<open>processResourceRequest\<close> returns the not-found response, and
  \<^verbatim>\<open>processLocalhostRequest\<close> returns \<^verbatim>\<open>undefined\<close> to \<^verbatim>\<open>respondWith\<close>, not the
  \<^verbatim>\<open>fetch(event.request)\<close> that \<^verbatim>\<open>resolveRedirect\<close> returns for a request that needs no
  redirect.
\<close>

theorem unknown_peer_answers:
  "tasks (run ''https://w'' [Fetch ex_event ex_url, ClientsGetSettled 0 None] init_world)
     = [Returned (Respond notFoundResponse)]
   \<and> tasks (run ''https://w'' [Fetch ex_localhost_event ex_localhost_url,
               ClientsGetSettled 0 None] init_world)
     = [Returned Undefined]
   \<and> Undefined \<noteq> NetworkFetch ex_localhost_event"
  by (simp add: init_world_def fetchListener_def afterClientsGet_def ex_event_def ex_url_def
      ex_localhost_event_def ex_localhost_url_def resourceRoot_def startsWith_def
      isLocalhostHost_def isDigit_def)

subsection \<open>Steps of the event loop\<close>

text \<open>A request that ends as \<open>settle\<close> says has ended and waits for nothing.\<close>

lemma settle_ended [simp]:
  "isFinished (settle r)" "\<not> isEntryWait (settle r)" "localsOk (settle r)"
  "settle r \<noteq> Resource_AwaitEntry s p a" "Resource_AwaitEntry s p a \<noteq> settle r"
  by (cases r; simp)+

lemma settleRedirect_ended [simp]:
  "isFinished (settleRedirect r')" "\<not> isEntryWait (settleRedirect r')"
  "localsOk (settleRedirect r')"
  by (cases r'; simp)+

lemma create_map_of_mono:
  "map_of (store_map st) k = Some e \<Longrightarrow>
   map_of (store_map (snd (RequestStore_create st s p))) k = Some e"
  by (auto simp: RequestStore_create_def RequestStore_get_def Let_def Map_set_map_of
      split: option.splits)

lemma create_promise_at_mono:
  "promise_at st a = Some q \<Longrightarrow> promise_at (snd (RequestStore_create st s p)) a = Some q"
  by (auto simp: RequestStore_create_def Let_def promise_at_def nth_append
      split: option.splits if_splits)

lemma create_gets_result:
  "RequestStore_get (snd (RequestStore_create st s p)) s p = Some (fst (RequestStore_create st s p))"
  by (auto simp: RequestStore_create_def RequestStore_get_def Let_def Map_set_map_of
      split: option.splits)

lemma create_map_of_other:
  "k \<noteq> RequestStore_key s p \<Longrightarrow>
   map_of (store_map (snd (RequestStore_create st s p))) k = map_of (store_map st) k"
  by (auto simp: RequestStore_create_def RequestStore_get_def Let_def Map_set_map_of
      split: option.splits)

lemma resolve_fulfilled_stable:
  "promise_at st a = Some (Fulfilled x) \<Longrightarrow>
   promise_at (snd (RequestStore_resolve st s p v)) a = Some (Fulfilled x)"
  by (cases "RequestStore_get st s p = Some a")
     (simp_all add: resolve_promise_at_same resolve_promise_at_other promise_resolve_def)

lemma apply_op_map_of_mono:
  "map_of (store_map st) k = Some e \<Longrightarrow> map_of (store_map (apply_op st x)) k = Some e"
  by (cases x) (simp_all add: create_map_of_mono resolve_map)

lemma apply_op_fulfilled_stable:
  "promise_at st a = Some (Fulfilled v) \<Longrightarrow> promise_at (apply_op st x) a = Some (Fulfilled v)"
  by (cases x) (simp_all add: create_promise_at_mono resolve_fulfilled_stable)

lemma apply_op_store_ok: "store_ok st \<Longrightarrow> store_ok (apply_op st x)"
  by (cases x) (simp_all add: store_ok_create store_ok_resolve)

text \<open>Every step leaves the resource store as it is or applies one store operation.\<close>

lemma messageListener_store:
  "resourceRequestStore (messageListener source msg w) = resourceRequestStore w
   \<or> (\<exists>x. resourceRequestStore (messageListener source msg w) = apply_op (resourceRequestStore w) x)"
proof (cases msg)
  case (DidLoadResource path code dat mim)
  show ?thesis
  proof (cases "getWebviewIdForClient source")
    case None
    then show ?thesis by (simp add: messageListener_def DidLoadResource)
  next
    case (Some s)
    have "resourceRequestStore (messageListener source msg w)
        = apply_op (resourceRequestStore w)
            (Resolve s path (if code = 200 then Some \<lparr>body = dat, mime = mim\<rparr> else None))"
      using Some by (simp add: messageListener_def DidLoadResource split: prod.splits)
    then show ?thesis by blast
  qed
next
  case (DidLoadLocalhost orig loc)
  then show ?thesis
    by (simp add: messageListener_def split: option.splits prod.splits)
next
  case (OtherChannel ch)
  then show ?thesis by (simp add: messageListener_def)
qed

lemma continue_store:
  "resourceRequestStore (continue t w) = resourceRequestStore w
   \<or> (\<exists>x. resourceRequestStore (continue t w) = apply_op (resourceRequestStore w) x)"
proof (cases "t < length (tasks w)")
  case False
  then show ?thesis by (simp add: continue_def)
next
  case True
  show ?thesis
  proof (cases "tasks w ! t")
    case (Resource_AwaitOuter s p pc)
    have "resourceRequestStore (continue t w) = resourceRequestStore w
      \<or> resourceRequestStore (continue t w) = apply_op (resourceRequestStore w) (Create s p)"
      using True Resource_AwaitOuter
      by (simp add: continue_def split: option.splits prod.splits)
    then show ?thesis by blast
  qed (use True in \<open>simp_all add: continue_def split: option.splits prod.splits promise.splits\<close>)
qed

lemma step_store:
  "resourceRequestStore (step so e w) = resourceRequestStore w
   \<or> (\<exists>x. resourceRequestStore (step so e w) = apply_op (resourceRequestStore w) x)"
proof (cases e)
  case (Fetch ev u)
  then show ?thesis by (simp add: fetchListener_def)
next
  case (ClientsGetSettled t found)
  then show ?thesis
    by (simp add: afterClientsGet_def split: task.splits option.splits)
next
  case (MatchAllSettled t cs)
  then show ?thesis by (simp add: afterMatchAll_def split: task.splits)
next
  case (Continue t)
  then show ?thesis using continue_store by simp
next
  case (Message source msg)
  then show ?thesis using messageListener_store by simp
qed

lemma step_store_ok:
  "store_ok (resourceRequestStore w) \<Longrightarrow> store_ok (resourceRequestStore (step so e w))"
  using step_store [of so e w] by (auto simp: apply_op_store_ok)

lemma step_map_of_mono:
  "map_of (store_map (resourceRequestStore w)) k = Some a \<Longrightarrow>
   map_of (store_map (resourceRequestStore (step so e w))) k = Some a"
  using step_store [of so e w] by (auto simp: apply_op_map_of_mono)

lemma step_fulfilled_stable:
  "promise_at (resourceRequestStore w) a = Some (Fulfilled v) \<Longrightarrow>
   promise_at (resourceRequestStore (step so e w)) a = Some (Fulfilled v)"
  using step_store [of so e w] by (auto simp: apply_op_fulfilled_stable)

lemma matchId_isId: "matchId b cs = Some s \<Longrightarrow> list_all isIdChar s"
proof (induction cs arbitrary: b)
  case Nil
  then show ?case by simp
next
  case (Cons c cs)
  have "list_all isIdChar (takeWhile isIdChar (drop 2 cs))"
    by (auto simp: list_all_iff dest: set_takeWhileD)
  then show ?case
    using Cons by (auto split: if_splits)
qed

lemma getWebviewIdForClient_isId:
  "getWebviewIdForClient c = Some s \<Longrightarrow> list_all isIdChar s"
  unfolding getWebviewIdForClient_def by (rule matchId_isId)

lemma takeWhile_key: "list_all isIdChar s \<Longrightarrow> takeWhile isIdChar (RequestStore_key s p) = s"
  by (simp add: RequestStore_key_def list_all_iff isIdChar_def)

lemma RequestStore_key_inj:
  assumes "list_all isIdChar s" "list_all isIdChar s'"
    and "RequestStore_key s p = RequestStore_key s' p'"
  shows "s = s' \<and> p = p'"
proof -
  have "s = s'"
    using takeWhile_key [OF assms(1), of p] takeWhile_key [OF assms(2), of p'] assms(3)
    by simp
  then show ?thesis
    using assms(3) by (simp add: RequestStore_key_def)
qed

lemma quiet_refl: "quiet w w"
  by (simp add: quiet_def)

lemma quiet_fetch: "quiet w (fetchListener so ev u w)"
  by (simp add: quiet_def fetchListener_def advisories_def)

lemma quiet_updateI:
  assumes "t < length (tasks w)" "\<not> isEntryWait (tasks w ! t)" "\<not> isFinished (tasks w ! t)"
    and "\<not> isEntryWait x" "localsOk (tasks w ! t) \<Longrightarrow> localsOk x"
    and "tasks w' = (tasks w)[t := x]"
    and "resourceRequestStore w' = resourceRequestStore w"
    and "\<forall>k. advisories w' k = advisories w k"
  shows "quiet w w'"
  using assms unfolding quiet_def by blast

lemma quiet_afterClientsGet: "quiet w (afterClientsGet t found w)"
proof (cases "t < length (tasks w)")
  case False
  then show ?thesis by (simp add: afterClientsGet_def quiet_refl)
next
  case True
  show ?thesis
  proof (cases "tasks w ! t")
    case (Resource_AwaitClient u)
    show ?thesis
      by (rule quiet_updateI [where t = t and
            x = "case found of None \<Rightarrow> Returned (Respond notFoundResponse)
                 | Some c \<Rightarrow> (case getWebviewIdForClient c of None \<Rightarrow> Threw
                     | Some webviewId \<Rightarrow> Resource_AwaitMatchAll webviewId
                         (removeFirst resourceRoot (pathname u)))"])
         (use True Resource_AwaitClient in
           \<open>simp_all add: afterClientsGet_def advisories_def getWebviewIdForClient_isId
              split: option.splits\<close>)
  next
    case (Localhost_AwaitClient ev u)
    show ?thesis
      by (rule quiet_updateI [where t = t and
            x = "case found of None \<Rightarrow> Returned Undefined
                 | Some c \<Rightarrow> (case getWebviewIdForClient c of None \<Rightarrow> Threw
                     | Some webviewId \<Rightarrow> Localhost_AwaitMatchAll ev u webviewId)"])
         (use True Localhost_AwaitClient in
           \<open>simp_all add: afterClientsGet_def advisories_def split: option.splits\<close>)
  qed (use True in \<open>simp_all add: afterClientsGet_def quiet_refl\<close>)
qed

lemma localsOk_found:
  "list_all isIdChar s \<Longrightarrow> localsOk (Resource_AwaitOuter s p (getOuterIframeClient s cs))"
proof (cases "getOuterIframeClient s cs")
  case None
  then show "list_all isIdChar s \<Longrightarrow> ?thesis" by simp
next
  case (Some pc)
  then have "isOuterIframeOf s pc"
    by (auto simp: getOuterIframeClient_def find_Some_iff)
  then show "list_all isIdChar s \<Longrightarrow> ?thesis" using Some by simp
qed

lemma quiet_afterMatchAll: "quiet w (afterMatchAll t cs w)"
proof (cases "t < length (tasks w)")
  case False
  then show ?thesis by (simp add: afterMatchAll_def quiet_refl)
next
  case True
  show ?thesis
  proof (cases "tasks w ! t")
    case (Resource_AwaitMatchAll s p)
    show ?thesis
      by (rule quiet_updateI [where t = t and
            x = "Resource_AwaitOuter s p (getOuterIframeClient s cs)"])
         (use True Resource_AwaitMatchAll in
           \<open>simp_all add: afterMatchAll_def advisories_def localsOk_found\<close>)
  next
    case (Localhost_AwaitMatchAll ev u s)
    show ?thesis
      by (rule quiet_updateI [where t = t and
            x = "Localhost_AwaitOuter ev u s (getOuterIframeClient s cs)"])
         (use True Localhost_AwaitMatchAll in
           \<open>simp_all add: afterMatchAll_def advisories_def\<close>)
  qed (use True in \<open>simp_all add: afterMatchAll_def quiet_refl\<close>)
qed

text \<open>Every step is of one of the five kinds.\<close>

lemma message_shape: "quiet w (messageListener source msg w) \<or> resolves w (messageListener source msg w)"
proof (cases msg)
  case (DidLoadResource path code dat mim)
  show ?thesis
  proof (cases "getWebviewIdForClient source")
    case None
    then show ?thesis by (simp add: messageListener_def DidLoadResource quiet_refl)
  next
    case (Some s)
    then have "resolves w (messageListener source msg w)"
      unfolding resolves_def
      by (intro exI [where x = s] exI [where x = path]
            exI [where x = "if code = 200 then Some \<lparr>body = dat, mime = mim\<rparr> else None"])
         (simp add: messageListener_def DidLoadResource split: prod.splits)
    then show ?thesis ..
  qed
next
  case (DidLoadLocalhost orig loc)
  then have "quiet w (messageListener source msg w)"
    by (simp add: quiet_def messageListener_def advisories_def split: option.splits prod.splits)
  then show ?thesis ..
next
  case (OtherChannel ch)
  then have "quiet w (messageListener source msg w)"
    by (simp add: quiet_def messageListener_def advisories_def)
  then show ?thesis ..
qed

lemma continue_shape:
  "quiet w (continue t w) \<or> joins w (continue t w) \<or> creates w (continue t w)
   \<or> releases w (continue t w)"
proof (cases "t < length (tasks w)")
  case False
  then show ?thesis by (simp add: continue_def quiet_refl)
next
  case True
  show ?thesis
  proof (cases "tasks w ! t")
    case (Resource_AwaitOuter s p parent)
    show ?thesis
    proof (cases parent)
      case None
      have "quiet w (continue t w)"
        by (rule quiet_updateI [where t = t and x = "Returned (Respond notFoundResponse)"])
           (use True Resource_AwaitOuter None in \<open>simp_all add: continue_def advisories_def\<close>)
      then show ?thesis ..
    next
      case (Some pc)
      show ?thesis
      proof (cases "RequestStore_get (resourceRequestStore w) s p")
        case (Some a)
        have "joins w (continue t w)"
          unfolding joins_def
          using True Resource_AwaitOuter \<open>parent = Some pc\<close> Some
          by (auto simp: continue_def)
        then show ?thesis by blast
      next
        case None
        have "creates w (continue t w)"
          unfolding creates_def
          using True Resource_AwaitOuter \<open>parent = Some pc\<close> None
          by (auto simp: continue_def RequestStore_create_def Let_def)
        then show ?thesis by blast
      qed
    qed
  next
    case (Resource_AwaitEntry s p a)
    show ?thesis
    proof (cases "promise_at (resourceRequestStore w) a")
      case None
      then show ?thesis
        using True Resource_AwaitEntry by (simp add: continue_def quiet_refl)
    next
      case (Some q)
      show ?thesis
      proof (cases q)
        case Pending
        then show ?thesis
          using True Resource_AwaitEntry Some by (simp add: continue_def quiet_refl)
      next
        case (Fulfilled v)
        have "releases w (continue t w)"
          unfolding releases_def
          using True Resource_AwaitEntry Some Fulfilled
          by (auto simp: continue_def)
        then show ?thesis by blast
      qed
    qed
  next
    case (Localhost_AwaitOuter ev u s parent)
    have "quiet w (continue t w)"
      by (rule quiet_updateI [where t = t and
            x = "case parent of None \<Rightarrow> Returned (Respond notFoundResponse)
                 | Some pc \<Rightarrow> Localhost_AwaitEntry ev u s
                     (fst (RequestStore_create (localhostRequestStore w) s (origin u)))"])
         (use True Localhost_AwaitOuter in
           \<open>auto simp: continue_def advisories_def RequestStore_create_def Let_def
              split: option.splits prod.splits\<close>)
    then show ?thesis ..
  next
    case (Localhost_AwaitEntry ev u s a)
    show ?thesis
    proof (cases "promise_at (localhostRequestStore w) a")
      case None
      then show ?thesis
        using True Localhost_AwaitEntry by (simp add: continue_def quiet_refl)
    next
      case (Some q)
      show ?thesis
      proof (cases q)
        case Pending
        then show ?thesis
          using True Localhost_AwaitEntry Some by (simp add: continue_def quiet_refl)
      next
        case (Fulfilled v)
        have "quiet w (continue t w)"
          by (rule quiet_updateI [where t = t and x = "settleRedirect (resolveRedirect ev u v)"])
             (use True Localhost_AwaitEntry Some Fulfilled in
               \<open>simp_all add: continue_def advisories_def\<close>)
        then show ?thesis ..
      qed
    qed
  qed (use True in \<open>simp_all add: continue_def quiet_refl\<close>)
qed

lemma step_shape:
  "quiet w (step so e w) \<or> resolves w (step so e w) \<or> joins w (step so e w)
   \<or> creates w (step so e w) \<or> releases w (step so e w)"
proof (cases e)
  case (Fetch ev u)
  then show ?thesis by (simp add: quiet_fetch)
next
  case (ClientsGetSettled t found)
  then show ?thesis by (simp add: quiet_afterClientsGet)
next
  case (MatchAllSettled t cs)
  then show ?thesis by (simp add: quiet_afterMatchAll)
next
  case (Continue t)
  then show ?thesis using continue_shape [of w t] by auto
next
  case (Message source msg)
  then show ?thesis using message_shape [of w source msg] by auto
qed

lemma in_set_updateD: "x \<in> set (xs[t := y]) \<Longrightarrow> x = y \<or> x \<in> set xs"
  using set_update_subset_insert [of xs t y] by auto

lemma world_ok_init: "world_ok init_world"
  by (simp add: world_ok_def init_world_def store_ok_def advisories_def RequestStore_new_def)

lemma world_ok_quiet:
  assumes "world_ok w" "quiet w w'"
  shows "world_ok w'"
proof -
  have rs: "resourceRequestStore w' = resourceRequestStore w"
    and adv: "\<And>k. advisories w' k = advisories w k"
    using assms(2) by (simp_all add: quiet_def)
  have loc: "\<forall>x \<in> set (tasks w). localsOk x"
    using assms(1) by (simp add: world_ok_def)
  consider "tasks w' = tasks w"
    | x where "tasks w' = tasks w @ [x]" "\<not> isEntryWait x" "localsOk x"
    | t x where "t < length (tasks w)" "tasks w' = (tasks w)[t := x]" "\<not> isEntryWait x"
        "localsOk (tasks w ! t) \<longrightarrow> localsOk x"
    using assms(2) unfolding quiet_def by blast
  then have sub: "\<forall>x \<in> set (tasks w'). x \<in> set (tasks w) \<or> (\<not> isEntryWait x \<and> localsOk x)"
  proof cases
    case 1
    then show ?thesis by simp
  next
    case 2
    then show ?thesis by auto
  next
    case 3
    have "localsOk (tasks w ! t)" using loc 3(1) by simp
    then have "localsOk x" using 3(4) by simp
    then show ?thesis using 3(2,3) by (auto dest!: in_set_updateD)
  qed
  have "Resource_AwaitEntry s p a \<in> set (tasks w)"
    if "Resource_AwaitEntry s p a \<in> set (tasks w')" for s p a
    using sub that by auto
  moreover have "localsOk x" if "x \<in> set (tasks w')" for x
    using sub that loc by auto
  ultimately show ?thesis
    using assms(1) by (simp add: world_ok_def rs adv)
qed

lemma world_ok_resolves:
  assumes "world_ok w" "resolves w w'"
  shows "world_ok w'"
proof -
  obtain s p v where rs: "resourceRequestStore w' = snd (RequestStore_resolve (resourceRequestStore w) s p v)"
    and t: "tasks w' = tasks w" and po: "posted w' = posted w"
    using assms(2) unfolding resolves_def by blast
  show ?thesis
    using assms(1)
    by (simp add: world_ok_def rs t resolve_get resolve_map store_ok_resolve advisories_def po)
qed

lemma world_ok_update_entry:
  assumes "world_ok w" "RequestStore_get (resourceRequestStore w) s p = Some a"
    and "list_all isIdChar s"
  shows "world_ok (w\<lparr>tasks := (tasks w)[t := Resource_AwaitEntry s p a]\<rparr>)"
proof -
  let ?w' = "w\<lparr>tasks := (tasks w)[t := Resource_AwaitEntry s p a]\<rparr>"
  have sub: "x = Resource_AwaitEntry s p a \<or> x \<in> set (tasks w)" if "x \<in> set (tasks ?w')" for x
    using that by (auto dest!: in_set_updateD)
  have "RequestStore_get (resourceRequestStore ?w') s' p' = Some a'"
    if "Resource_AwaitEntry s' p' a' \<in> set (tasks ?w')" for s' p' a'
    using sub [OF that] assms by (auto simp: world_ok_def)
  moreover have "localsOk x" if "x \<in> set (tasks ?w')" for x
    using sub [OF that] assms(1,3) by (auto simp: world_ok_def)
  ultimately show ?thesis
    using assms(1) by (simp add: world_ok_def advisories_def)
qed

lemma world_ok_locals:
  "world_ok w \<Longrightarrow> t < length (tasks w) \<Longrightarrow> localsOk (tasks w ! t)"
  by (simp add: world_ok_def)

lemma world_ok_joins:
  assumes "world_ok w" "joins w w'"
  shows "world_ok w'"
proof -
  obtain t s p pc a where t: "t < length (tasks w)"
    and cur: "tasks w ! t = Resource_AwaitOuter s p (Some pc)"
    and g: "RequestStore_get (resourceRequestStore w) s p = Some a"
    and w': "w' = w\<lparr>tasks := (tasks w)[t := Resource_AwaitEntry s p a]\<rparr>"
    using assms(2) unfolding joins_def by blast
  have "list_all isIdChar s"
    using world_ok_locals [OF assms(1) t] by (simp add: cur)
  with assms(1) g show ?thesis
    unfolding w' by (rule world_ok_update_entry)
qed

lemma world_ok_releases:
  assumes "world_ok w" "releases w w'"
  shows "world_ok w'"
proof -
  obtain t v where w': "w' = w\<lparr>tasks := (tasks w)[t := settle (resolveResourceEntry v)]\<rparr>"
    using assms(2) unfolding releases_def by blast
  have sub: "x = settle (resolveResourceEntry v) \<or> x \<in> set (tasks w)"
    if "x \<in> set (tasks w')" for x
    using that by (auto simp: w' dest!: in_set_updateD)
  have "RequestStore_get (resourceRequestStore w') s' p' = Some a'"
    if "Resource_AwaitEntry s' p' a' \<in> set (tasks w')" for s' p' a'
    using sub [OF that] assms(1) by (auto simp: world_ok_def w')
  moreover have "localsOk x" if "x \<in> set (tasks w')" for x
    using sub [OF that] assms(1) by (auto simp: world_ok_def)
  ultimately show ?thesis
    using assms(1) by (simp add: world_ok_def advisories_def w')
qed

lemma world_ok_creates:
  assumes "world_ok w" "creates w w'"
  shows "world_ok w'"
proof -
  let ?st = "resourceRequestStore w"
  obtain t s p pc where t: "t < length (tasks w)"
    and cur: "tasks w ! t = Resource_AwaitOuter s p (Some pc)"
    and g: "RequestStore_get ?st s p = None"
    and w': "w' = w\<lparr>posted := posted w @ [(s, pc, LoadResource p)],
                  resourceRequestStore := snd (RequestStore_create ?st s p),
                  tasks := (tasks w)[t := Resource_AwaitEntry s p (length (promises ?st))]\<rparr>"
    using assms(2) unfolding creates_def by blast
  have pc: "list_all isIdChar s" "isOuterIframeOf s pc"
    using world_ok_locals [OF assms(1) t] by (simp_all add: cur)
  have fst_create: "fst (RequestStore_create ?st s p) = length (promises ?st)"
    using g by (simp add: RequestStore_create_def Let_def)
  have ok: "store_ok (resourceRequestStore w')"
    using assms(1) by (simp add: w' world_ok_def store_ok_create)
  have sub: "x = Resource_AwaitEntry s p (length (promises ?st)) \<or> x \<in> set (tasks w)"
    if "x \<in> set (tasks w')" for x
    using that by (auto simp: w' dest!: in_set_updateD)
  have waits: "RequestStore_get (resourceRequestStore w') s' p' = Some a"
    if "Resource_AwaitEntry s' p' a \<in> set (tasks w')" for s' p' a
  proof -
    from sub [OF that] consider
      "Resource_AwaitEntry s' p' a = Resource_AwaitEntry s p (length (promises ?st))"
      | "Resource_AwaitEntry s' p' a \<in> set (tasks w)"
      by blast
    then show ?thesis
    proof cases
      case 1
      then show ?thesis
        using create_gets_result [of ?st s p] by (simp add: w' fst_create)
    next
      case 2
      then have "RequestStore_get ?st s' p' = Some a"
        using assms(1) by (simp add: world_ok_def)
      then show ?thesis
        by (simp add: w' RequestStore_get_def create_map_of_mono)
    qed
  qed
  have outer: "localsOk x" if "x \<in> set (tasks w')" for x
    using sub [OF that] assms(1) pc by (auto simp: world_ok_def)
  have count: "length (advisories w' k)
      = (if map_of (store_map (resourceRequestStore w')) k = None then 0 else 1)" for k
  proof (cases "k = RequestStore_key s p")
    case True
    have "length (advisories w k) = 0"
      using assms(1) g by (simp add: world_ok_def True RequestStore_get_def)
    moreover have "map_of (store_map (resourceRequestStore w')) k \<noteq> None"
      using create_gets_result [of ?st s p] by (simp add: w' True RequestStore_get_def)
    ultimately show ?thesis
      by (simp add: w' advisories_def True)
  next
    case False
    have "map_of (store_map (resourceRequestStore w')) k = map_of (store_map ?st) k"
      using False by (simp add: w' create_map_of_other)
    moreover have "advisories w' k = advisories w k"
      using False by (auto simp: w' advisories_def)
    ultimately show ?thesis
      using assms(1) by (simp add: world_ok_def)
  qed
  have target: "list_all isIdChar (fst x) \<and> isOuterIframeOf (fst x) (fst (snd x))"
    if "x \<in> set (advisories w' k)" for x k
  proof -
    from that have "x = (s, pc, LoadResource p) \<or> x \<in> set (advisories w k)"
      by (auto simp: w' advisories_def split: if_splits)
    then show ?thesis
      using pc assms(1) by (auto simp: world_ok_def)
  qed
  show ?thesis
    unfolding world_ok_def using ok waits count outer target by blast
qed

lemma world_ok_step: "world_ok w \<Longrightarrow> world_ok (step so e w)"
  using step_shape [of w so e]
  by (auto intro: world_ok_quiet world_ok_resolves world_ok_joins world_ok_creates
      world_ok_releases)

lemma world_ok_run: "world_ok w \<Longrightarrow> world_ok (run so es w)"
  by (induction es arbitrary: w) (simp_all add: world_ok_step)

lemma run_map_of_mono:
  "map_of (store_map (resourceRequestStore w)) k = Some a \<Longrightarrow>
   map_of (store_map (resourceRequestStore (run so es w))) k = Some a"
  by (induction es arbitrary: w) (simp_all add: step_map_of_mono)

lemma run_fulfilled_stable:
  "promise_at (resourceRequestStore w) a = Some (Fulfilled v) \<Longrightarrow>
   promise_at (resourceRequestStore (run so es w)) a = Some (Fulfilled v)"
  by (induction es arbitrary: w) (simp_all add: step_fulfilled_stable)

text \<open>
  A task that waits for a fulfilled promise keeps waiting or ends as
  \<^verbatim>\<open>resolveResourceEntry\<close> of its value does.
\<close>

lemma served_update:
  assumes "served w t s p a v" "tasks w' = (tasks w)[ta := x]"
    and "ta \<noteq> t \<or> x = settle (resolveResourceEntry v)"
  shows "served w' t s p a v"
proof (cases "ta = t")
  case True
  then show ?thesis using assms by (auto simp: served_def)
next
  case False
  then show ?thesis using assms by (auto simp: served_def)
qed

lemma served_step:
  assumes "served w t s p a v" "promise_at (resourceRequestStore w) a = Some (Fulfilled v)"
  shows "served (step so e w) t s p a v"
proof -
  let ?w' = "step so e w"
  have t: "t < length (tasks w)" using assms(1) by (simp add: served_def)
  have cur: "isEntryWait (tasks w ! t) \<or> isFinished (tasks w ! t)"
    using assms(1) by (auto simp: served_def)
  consider "quiet w ?w'" | "resolves w ?w'" | "joins w ?w'" | "creates w ?w'" | "releases w ?w'"
    using step_shape [of w so e] by blast
  then show ?thesis
  proof cases
    case 1
    then consider "tasks ?w' = tasks w"
      | x where "tasks ?w' = tasks w @ [x]"
      | ta x where "ta < length (tasks w)" "tasks ?w' = (tasks w)[ta := x]"
          "\<not> isEntryWait (tasks w ! ta)" "\<not> isFinished (tasks w ! ta)"
      unfolding quiet_def by blast
    then show ?thesis
    proof cases
      case 1
      then show ?thesis using assms(1) by (simp add: served_def)
    next
      case 2
      then show ?thesis using assms(1) by (auto simp: served_def nth_append)
    next
      case 3
      then have "ta \<noteq> t" using cur by auto
      then show ?thesis using 3(2) assms(1) by (auto intro: served_update)
    qed
  next
    case 2
    then show ?thesis using assms(1) by (auto simp: resolves_def served_def)
  next
    case 3
    then obtain ta s' p' pc a' where ta: "tasks w ! ta = Resource_AwaitOuter s' p' (Some pc)"
      and w': "?w' = w\<lparr>tasks := (tasks w)[ta := Resource_AwaitEntry s' p' a']\<rparr>"
      unfolding joins_def by blast
    have "ta \<noteq> t" using cur ta by auto
    moreover have "tasks ?w' = (tasks w)[ta := Resource_AwaitEntry s' p' a']"
      by (simp add: w')
    ultimately show ?thesis using assms(1) by (auto intro: served_update)
  next
    case 4
    then obtain ta s' p' pc x where ta: "tasks w ! ta = Resource_AwaitOuter s' p' (Some pc)"
      and w': "tasks ?w' = (tasks w)[ta := x]"
      unfolding creates_def by auto
    have "ta \<noteq> t" using cur ta by auto
    then show ?thesis using assms(1) w' by (auto intro: served_update)
  next
    case 5
    then obtain ta s' p' a' v' where ta: "tasks w ! ta = Resource_AwaitEntry s' p' a'"
      and pa: "promise_at (resourceRequestStore w) a' = Some (Fulfilled v')"
      and w': "?w' = w\<lparr>tasks := (tasks w)[ta := settle (resolveResourceEntry v')]\<rparr>"
      unfolding releases_def by blast
    have upd: "tasks ?w' = (tasks w)[ta := settle (resolveResourceEntry v')]"
      by (simp add: w')
    show ?thesis
    proof (cases "ta = t")
      case False
      then show ?thesis using assms(1) upd by (auto intro: served_update)
    next
      case True
      then have "tasks w ! t = Resource_AwaitEntry s p a"
        using ta assms(1) by (auto simp: served_def)
      then have "a' = a" using ta True by simp
      then have "v' = v" using pa assms(2) by simp
      then show ?thesis using assms(1) upd by (auto intro: served_update)
    qed
  qed
qed

lemma served_run:
  "served w t s p a v \<Longrightarrow> promise_at (resourceRequestStore w) a = Some (Fulfilled v) \<Longrightarrow>
   served (run so es w) t s p a v"
  by (induction es arbitrary: w) (simp_all add: served_step step_fulfilled_stable)

lemma ex_three_reached: "run ''https://w'' ex_three_schedule init_world = ex_three"
  by code_simp

lemma ex_answered_reached: "run ''https://w'' ex_answered_schedule init_world = ex_answered"
  by code_simp

lemma message_store:
  "getWebviewIdForClient source = Some s \<Longrightarrow>
   resourceRequestStore (messageListener source (DidLoadResource path code dat mim) w)
     = snd (RequestStore_resolve (resourceRequestStore w) s path
             (if code = 200 then Some \<lparr>body = dat, mime = mim\<rparr> else None))
   \<and> tasks (messageListener source (DidLoadResource path code dat mim) w) = tasks w"
  by (simp add: messageListener_def split: prod.splits)

lemma continue_release:
  "t < length (tasks w) \<Longrightarrow> tasks w ! t = Resource_AwaitEntry s p a \<Longrightarrow>
   promise_at (resourceRequestStore w) a = Some (Fulfilled v) \<Longrightarrow>
   tasks (continue t w) ! t = settle (resolveResourceEntry v)"
  by (simp add: continue_def)

lemma continue_join:
  "t < length (tasks w) \<Longrightarrow> tasks w ! t = Resource_AwaitOuter s p (Some pc) \<Longrightarrow>
   RequestStore_get (resourceRequestStore w) s p = Some a \<Longrightarrow>
   continue t w = w\<lparr>tasks := (tasks w)[t := Resource_AwaitEntry s p a]\<rparr>"
  by (simp add: continue_def)

lemma message_release:
  assumes "getWebviewIdForClient source = Some s"
    and "RequestStore_get (resourceRequestStore w) s p = Some a"
    and "promise_at (resourceRequestStore w) a = Some Pending"
    and "t < length (tasks w)" "tasks w ! t = Resource_AwaitEntry s' p' a"
  shows "tasks (continue t (messageListener source (DidLoadResource p code dat mim) w)) ! t
     = settle (resolveResourceEntry
         (if code = 200 then Some \<lparr>body = dat, mime = mim\<rparr> else None))"
proof -
  let ?w' = "messageListener source (DidLoadResource p code dat mim) w"
  let ?r = "if code = 200 then Some \<lparr>body = dat, mime = mim\<rparr> else None"
  have st: "resourceRequestStore ?w' = snd (RequestStore_resolve (resourceRequestStore w) s p ?r)"
    and ts: "tasks ?w' = tasks w"
    using message_store [OF assms(1)] by simp_all
  have "promise_at (resourceRequestStore ?w') a = Some (Fulfilled ?r)"
    using assms(2,3) by (simp only: st resolve_promise_at_same) (simp add: promise_resolve_def)
  then show ?thesis
    using assms(4,5) ts by (intro continue_release) simp_all
qed

lemma advisory_shape:
  assumes "world_ok w" "t < length (tasks w)" "tasks w ! t = Resource_AwaitEntry s p a"
  shows "\<exists>pc. advisories w (RequestStore_key s p) = [(s, pc, LoadResource p)]
           \<and> isOuterIframeOf s pc"
proof -
  let ?k = "RequestStore_key s p"
  have id: "list_all isIdChar s"
    using world_ok_locals [OF assms(1,2)] by (simp add: assms(3))
  have "tasks w ! t \<in> set (tasks w)" using assms(2) by (rule nth_mem)
  then have "RequestStore_get (resourceRequestStore w) s p = Some a"
    using assms(1,3) by (simp add: world_ok_def)
  then have "length (advisories w ?k) = 1"
    using assms(1) by (simp add: world_ok_def RequestStore_get_def)
  then obtain x where x: "advisories w ?k = [x]"
    by (cases "advisories w ?k") simp_all
  then have mem: "x \<in> set (advisories w ?k)" by simp
  then have ok: "list_all isIdChar (fst x)" "isOuterIframeOf (fst x) (fst (snd x))"
    using assms(1) by (auto simp: world_ok_def)
  obtain s' pc m where xs: "x = (s', pc, m)" by (cases x)
  have key: "advisoryKey x = Some ?k"
    using mem by (simp add: advisories_def)
  then obtain p' where m: "m = LoadResource p'" and k: "RequestStore_key s' p' = ?k"
    by (cases m) (simp_all add: xs)
  have "s' = s \<and> p' = p"
    using ok(1) id k by (intro RequestStore_key_inj) (simp_all add: xs)
  then show ?thesis
    using x ok(2) by (simp add: xs m)
qed

subsection \<open>Concurrent requests for one key\<close>

text \<open>
  What holds of the requests for one key of the resource store. In every state \<open>w\<close>
  that the worker can reach from its start, by any interleaving of fetch events, settled
  client lookups, continuations and messages:
  \<^item> the resource store holds no key twice, and for no key more than one
    \<^verbatim>\<open>load-resource\<close> message has been posted;
  \<^item> for every request \<open>t\<close> that waits for the entry of its key \<open>(s, p)\<close>: the entry it
    waits for is the one the store holds under the key; exactly one \<^verbatim>\<open>load-resource\<close>
    message has been posted for the key, with path \<open>p\<close>, to a client that passes the test
    of \<^verbatim>\<open>getOuterIframeClient\<close> for \<open>s\<close> (which a client with another identifier can
    pass, see below); every other request that waits for the key waits for the same
    entry; the store holds that entry under the key in every later state;
  \<^item> when the entry is pending and a \<^verbatim>\<open>did-load-resource\<close> message for \<open>p\<close> arrives from
    a client with identifier \<open>s\<close>, each waiting request, when it runs on, ends as
    \<^verbatim>\<open>resolveResourceEntry\<close> of the value of that message does;
  \<^item> when the entry is fulfilled with \<open>v\<close>, each waiting request, when it runs on, ends
    as \<^verbatim>\<open>resolveResourceEntry\<close> of \<open>v\<close> does, and in every later state the promise still
    holds \<open>v\<close> and the request still waits for it or has ended in that way.
\<close>

lemma waiting_share_entry:
  assumes "w = run self_origin es init_world"
  shows "distinct (map fst (store_map (resourceRequestStore w)))
    \<and> (\<forall>k. length (advisories w k) \<le> 1)
    \<and> (\<forall>t s p a. t < length (tasks w) \<and> tasks w ! t = Resource_AwaitEntry s p a \<longrightarrow>
          RequestStore_get (resourceRequestStore w) s p = Some a
          \<and> (\<exists>pc. advisories w (RequestStore_key s p) = [(s, pc, LoadResource p)]
                \<and> isOuterIframeOf s pc)
          \<and> (\<forall>t' a'. t' < length (tasks w) \<and> tasks w ! t' = Resource_AwaitEntry s p a'
                \<longrightarrow> a' = a)
          \<and> (\<forall>es'. RequestStore_get (resourceRequestStore (run self_origin es' w)) s p = Some a)
          \<and> (\<forall>source code dat mim.
                getWebviewIdForClient source = Some s
                \<and> promise_at (resourceRequestStore w) a = Some Pending \<longrightarrow>
                tasks (continue t (messageListener source (DidLoadResource p code dat mim) w)) ! t
                  = settle (resolveResourceEntry
                      (if code = 200 then Some \<lparr>body = dat, mime = mim\<rparr> else None)))
          \<and> (\<forall>v. promise_at (resourceRequestStore w) a = Some (Fulfilled v) \<longrightarrow>
                tasks (continue t w) ! t = settle (resolveResourceEntry v)
                \<and> (\<forall>es'. served (run self_origin es' w) t s p a v
                      \<and> promise_at (resourceRequestStore (run self_origin es' w)) a
                          = Some (Fulfilled v))))"
proof -
  have ok: "world_ok w"
    unfolding assms by (rule world_ok_run [OF world_ok_init])
  have keys: "distinct (map fst (store_map (resourceRequestStore w)))"
    using ok by (simp add: world_ok_def store_ok_def)
  have count: "length (advisories w k)
      = (if map_of (store_map (resourceRequestStore w)) k = None then 0 else 1)" for k
    using ok by (simp add: world_ok_def)
  have waits: "RequestStore_get (resourceRequestStore w) s p = Some a"
    if "t < length (tasks w)" "tasks w ! t = Resource_AwaitEntry s p a" for t s p a
  proof -
    have "tasks w ! t \<in> set (tasks w)"
      using that(1) by (rule nth_mem)
    then have "Resource_AwaitEntry s p a \<in> set (tasks w)"
      using that(2) by simp
    then show ?thesis using ok by (simp add: world_ok_def)
  qed
  have one: "\<exists>pc. advisories w (RequestStore_key s p) = [(s, pc, LoadResource p)]
        \<and> isOuterIframeOf s pc"
    if "t < length (tasks w)" "tasks w ! t = Resource_AwaitEntry s p a" for t s p a
    using ok that by (rule advisory_shape)
  have same: "a' = a"
    if "t < length (tasks w)" "tasks w ! t = Resource_AwaitEntry s p a"
      "t' < length (tasks w)" "tasks w ! t' = Resource_AwaitEntry s p a'" for t t' s p a a'
    using waits [OF that(1,2)] waits [OF that(3,4)] by simp
  have later: "RequestStore_get (resourceRequestStore (run self_origin es' w)) s p = Some a"
    if "t < length (tasks w)" "tasks w ! t = Resource_AwaitEntry s p a" for t s p a es'
    using waits [OF that] by (simp add: RequestStore_get_def run_map_of_mono)
  have msg: "tasks (continue t (messageListener source (DidLoadResource p code dat mim) w)) ! t
        = settle (resolveResourceEntry
            (if code = 200 then Some \<lparr>body = dat, mime = mim\<rparr> else None))"
    if "t < length (tasks w)" "tasks w ! t = Resource_AwaitEntry s p a"
      "getWebviewIdForClient source = Some s"
      "promise_at (resourceRequestStore w) a = Some Pending"
    for t s p a source code dat mim
    using message_release [OF that(3) waits [OF that(1,2)] that(4) that(1,2)] .
  have ful: "tasks (continue t w) ! t = settle (resolveResourceEntry v)
        \<and> (\<forall>es'. served (run self_origin es' w) t s p a v
              \<and> promise_at (resourceRequestStore (run self_origin es' w)) a = Some (Fulfilled v))"
    if "t < length (tasks w)" "tasks w ! t = Resource_AwaitEntry s p a"
      "promise_at (resourceRequestStore w) a = Some (Fulfilled v)" for t s p a v
  proof -
    have "served w t s p a v" using that(1,2) by (simp add: served_def)
    then show ?thesis
      using that by (simp add: continue_release served_run run_fulfilled_stable)
  qed
  have atmost: "\<forall>k. length (advisories w k) \<le> 1"
    by (simp add: count)
  have each: "RequestStore_get (resourceRequestStore w) s p = Some a
          \<and> (\<exists>pc. advisories w (RequestStore_key s p) = [(s, pc, LoadResource p)]
                \<and> isOuterIframeOf s pc)
          \<and> (\<forall>t' a'. t' < length (tasks w) \<and> tasks w ! t' = Resource_AwaitEntry s p a'
                \<longrightarrow> a' = a)
          \<and> (\<forall>es'. RequestStore_get (resourceRequestStore (run self_origin es' w)) s p = Some a)
          \<and> (\<forall>source code dat mim.
                getWebviewIdForClient source = Some s
                \<and> promise_at (resourceRequestStore w) a = Some Pending \<longrightarrow>
                tasks (continue t (messageListener source (DidLoadResource p code dat mim) w)) ! t
                  = settle (resolveResourceEntry
                      (if code = 200 then Some \<lparr>body = dat, mime = mim\<rparr> else None)))
          \<and> (\<forall>v. promise_at (resourceRequestStore w) a = Some (Fulfilled v) \<longrightarrow>
                tasks (continue t w) ! t = settle (resolveResourceEntry v)
                \<and> (\<forall>es'. served (run self_origin es' w) t s p a v
                      \<and> promise_at (resourceRequestStore (run self_origin es' w)) a
                          = Some (Fulfilled v)))"
    if h: "t < length (tasks w)" "tasks w ! t = Resource_AwaitEntry s p a" for t s p a
  proof (intro conjI)
    show "RequestStore_get (resourceRequestStore w) s p = Some a"
      by (rule waits [OF h])
    show "\<exists>pc. advisories w (RequestStore_key s p) = [(s, pc, LoadResource p)]
        \<and> isOuterIframeOf s pc"
      by (rule one [OF h])
    show "\<forall>t' a'. t' < length (tasks w) \<and> tasks w ! t' = Resource_AwaitEntry s p a' \<longrightarrow> a' = a"
      using same [OF h] by blast
    show "\<forall>es'. RequestStore_get (resourceRequestStore (run self_origin es' w)) s p = Some a"
      using later [OF h] by blast
    show "\<forall>source code dat mim.
            getWebviewIdForClient source = Some s
            \<and> promise_at (resourceRequestStore w) a = Some Pending \<longrightarrow>
            tasks (continue t (messageListener source (DidLoadResource p code dat mim) w)) ! t
              = settle (resolveResourceEntry
                  (if code = 200 then Some \<lparr>body = dat, mime = mim\<rparr> else None))"
      using msg [OF h] by blast
    show "\<forall>v. promise_at (resourceRequestStore w) a = Some (Fulfilled v) \<longrightarrow>
            tasks (continue t w) ! t = settle (resolveResourceEntry v)
            \<and> (\<forall>es'. served (run self_origin es' w) t s p a v
                  \<and> promise_at (resourceRequestStore (run self_origin es' w)) a
                      = Some (Fulfilled v))"
      using ful [OF h] by blast
  qed
  show ?thesis
    apply (rule conjI, rule keys, rule conjI, rule atmost)
    apply (intro allI, rule impI, erule conjE)
    apply (erule (1) each)
    done
qed

lemma waiting_share_entry_example:
  "ex_three = run ''https://w'' ex_three_schedule init_world
   \<and> tasks ex_three = [Resource_AwaitEntry ''s1'' ''/img.png'' 0,
        Resource_AwaitEntry ''s1'' ''/img.png'' 0, Resource_AwaitEntry ''s1'' ''/img.png'' 0]
   \<and> getWebviewIdForClient ex_outer = Some ''s1''
   \<and> promise_at (resourceRequestStore ex_three) 0 = Some Pending
   \<and> advisories ex_three (RequestStore_key ''s1'' ''/img.png'')
       = [(''s1'', ex_outer, LoadResource ''/img.png'')]
   \<and> tasks (continue 0 (messageListener ex_outer
         (DidLoadResource ''/img.png'' 200 ''BYTES'' ''image/png'') ex_three)) ! 0
       = Returned (Respond \<lparr>status = 200, responseBody = Some ''BYTES'',
           headers = [(''Content-Type'', ''image/png'')]\<rparr>)
   \<and> tasks (continue 1 (messageListener ex_outer
         (DidLoadResource ''/img.png'' 200 ''BYTES'' ''image/png'') ex_three)) ! 1
       = Returned (Respond \<lparr>status = 200, responseBody = Some ''BYTES'',
           headers = [(''Content-Type'', ''image/png'')]\<rparr>)
   \<and> tasks (continue 2 (messageListener ex_outer
         (DidLoadResource ''/img.png'' 200 ''BYTES'' ''image/png'') ex_three)) ! 2
       = Returned (Respond \<lparr>status = 200, responseBody = Some ''BYTES'',
           headers = [(''Content-Type'', ''image/png'')]\<rparr>)"
proof -
  have r: "ex_three = run ''https://w'' ex_three_schedule init_world"
    by (simp add: ex_three_reached)
  have t: "tasks ex_three = [Resource_AwaitEntry ''s1'' ''/img.png'' 0,
        Resource_AwaitEntry ''s1'' ''/img.png'' 0, Resource_AwaitEntry ''s1'' ''/img.png'' 0]"
    by (simp add: ex_three_def)
  have p: "promise_at (resourceRequestStore ex_three) 0 = Some Pending"
    by (simp add: ex_three_def promise_at_def)
  have a: "advisories ex_three (RequestStore_key ''s1'' ''/img.png'')
       = [(''s1'', ex_outer, LoadResource ''/img.png'')]"
    by (simp add: ex_three_def advisories_def)
  have m: "settle (resolveResourceEntry (Some \<lparr>body = ''BYTES'', mime = ''image/png''\<rparr>))
      = Returned (Respond \<lparr>status = 200, responseBody = Some ''BYTES'',
           headers = [(''Content-Type'', ''image/png'')]\<rparr>)"
    by (simp add: resolveResourceEntry_png)
  note d = waiting_share_entry [OF r, THEN conjunct2, THEN conjunct2, rule_format, THEN conjunct2,
      THEN conjunct2, THEN conjunct2, THEN conjunct2, THEN conjunct1, rule_format,
      of _ "''s1''" "''/img.png''" 0 ex_outer 200 "''BYTES''" "''image/png''"]
  have d0: "tasks (continue 0 (messageListener ex_outer
         (DidLoadResource ''/img.png'' 200 ''BYTES'' ''image/png'') ex_three)) ! 0
       = Returned (Respond \<lparr>status = 200, responseBody = Some ''BYTES'',
           headers = [(''Content-Type'', ''image/png'')]\<rparr>)"
    using d [of 0] by (simp add: t p ex_outer_id m)
  have d1: "tasks (continue 1 (messageListener ex_outer
         (DidLoadResource ''/img.png'' 200 ''BYTES'' ''image/png'') ex_three)) ! 1
       = Returned (Respond \<lparr>status = 200, responseBody = Some ''BYTES'',
           headers = [(''Content-Type'', ''image/png'')]\<rparr>)"
    using d [of 1] by (simp add: t p ex_outer_id m)
  have d2: "tasks (continue 2 (messageListener ex_outer
         (DidLoadResource ''/img.png'' 200 ''BYTES'' ''image/png'') ex_three)) ! 2
       = Returned (Respond \<lparr>status = 200, responseBody = Some ''BYTES'',
           headers = [(''Content-Type'', ''image/png'')]\<rparr>)"
    using d [of 2] by (simp add: t p ex_outer_id m)
  show ?thesis
    using r t p a d0 d1 d2 ex_outer_id by simp
qed

subsection \<open>Where the message of a key goes\<close>

text \<open>
  C1, at an input where the code departs from it. The claim has the one
  \<^verbatim>\<open>load-resource\<close> message of a key go to the controller peer of the session, the outer
  iframe of the webview. \<^verbatim>\<open>processResourceRequest\<close> posts it to the client that
  \<^verbatim>\<open>getOuterIframeClient\<close> returns, and that function tests the query of a client with the
  unanchored pattern \<^verbatim>\<open>\bid=\<close> followed by the identifier. In the run below the outer
  iframes of the webviews \<^verbatim>\<open>s1\<close>, \<^verbatim>\<open>ab\<close> and \<^verbatim>\<open>a\<close> are connected and the inner frame of
  the webview \<^verbatim>\<open>a\<close> asks twice for the same resource. Both requests wait for the one
  entry of the key and one message is posted, as the claim says; but the message goes to
  the outer iframe of \<^verbatim>\<open>ab\<close>, and none goes to the outer iframe of \<^verbatim>\<open>a\<close>. When the
  client that received the message answers it, the listener reads the identifier \<^verbatim>\<open>ab\<close>
  from it, finds no entry under that key and logs so; the entry of the webview \<^verbatim>\<open>a\<close>
  stays pending and both requests keep waiting. The localhost flow finds its outer
  iframe by the same function: two requests of the same inner frame to
  \<^verbatim>\<open>localhost:8080\<close> wait for one entry and post one \<^verbatim>\<open>load-localhost\<close> message, to the
  outer iframe of \<^verbatim>\<open>ab\<close> as well.
\<close>

theorem advisory_misrouted:
  "run ''https://w'' ex_misrouted_schedule init_world = ex_misrouted
   \<and> getWebviewIdForClient ex_inner_a = Some ''a''
   \<and> getWebviewIdForClient ex_outer_ab = Some ''ab''
   \<and> getWebviewIdForClient ex_outer_a = Some ''a''
   \<and> pathname (client_url ex_outer_a) = ''/''
   \<and> tasks ex_misrouted
       = [Resource_AwaitEntry ''a'' ''/img.png'' 0, Resource_AwaitEntry ''a'' ''/img.png'' 0]
   \<and> posted ex_misrouted = [(''a'', ex_outer_ab, LoadResource ''/img.png'')]
   \<and> filter (\<lambda>x. fst (snd x) = ex_outer_a) (posted ex_misrouted) = []
   \<and> promise_at (resourceRequestStore ex_misrouted) 0 = Some Pending
   \<and> resourceRequestStore (run ''https://w'' ex_misrouted_answer ex_misrouted)
       = resourceRequestStore ex_misrouted
   \<and> tasks (run ''https://w'' ex_misrouted_answer ex_misrouted) = tasks ex_misrouted
   \<and> console (run ''https://w'' ex_misrouted_answer ex_misrouted)
       = [[''Could not resolve unknown resource'', ''/img.png'']]
   \<and> posted (run ''https://w'' ex_misrouted_localhost_schedule init_world)
       = [(''a'', ex_outer_ab, LoadLocalhost ''http://localhost:8080'')]
   \<and> tasks (run ''https://w'' ex_misrouted_localhost_schedule init_world)
       = [Localhost_AwaitEntry ex_localhost_event ex_localhost_url ''a'' 0,
          Localhost_AwaitEntry ex_localhost_event ex_localhost_url ''a'' 0]"
  by code_simp

subsection \<open>An entry after its resolution\<close>

text \<open>
  C3 says that an entry is gone once it is resolved and its waiting requests are
  released, so that a later request for the key posts a new message. The code removes
  nothing from the map. In the run below one request is answered with the resource; a
  second request for the same resource then finds the entry under its key, the store
  stays as it is, no second \<^verbatim>\<open>load-resource\<close> message is posted, and the request returns
  the resource that the first message brought.
\<close>

theorem resolved_entry_reused:
  "run ''https://w'' ex_answered_schedule init_world = ex_answered
   \<and> tasks ex_answered
       = [Returned (Respond \<lparr>status = 200, responseBody = Some ''BYTES'',
            headers = [(''Content-Type'', ''image/png'')]\<rparr>)]
   \<and> RequestStore_get (resourceRequestStore ex_answered) ''s1'' ''/img.png'' = Some 0
   \<and> resourceRequestStore (run ''https://w'' ex_second_schedule ex_answered)
       = resourceRequestStore ex_answered
   \<and> posted (run ''https://w'' ex_second_schedule ex_answered)
       = [(''s1'', ex_outer, LoadResource ''/img.png'')]
   \<and> tasks (run ''https://w'' ex_second_schedule ex_answered) ! 1
       = Returned (Respond \<lparr>status = 200, responseBody = Some ''BYTES'',
           headers = [(''Content-Type'', ''image/png'')]\<rparr>)"
  by code_simp

text \<open>
  C3, amended. An entry stays in the store after it is resolved: \<^verbatim>\<open>resolve\<close> leaves it
  under its key, and in every later state a lookup of the key finds the same entry,
  fulfilled with the same value. A later request for the key therefore joins that
  entry, changes neither the store nor the posted messages, and ends as
  \<^verbatim>\<open>resolveResourceEntry\<close> of the value that was resolved before does: it returns the
  response made from that value (or, when the mime string of the value is no header
  value, fails with the \<^verbatim>\<open>TypeError\<close> of the constructor).
\<close>

theorem entry_kept:
  assumes "RequestStore_get (resourceRequestStore w) s p = Some a"
    and "promise_at (resourceRequestStore w) a = Some (Fulfilled v)"
  shows "(\<forall>s' p' x. RequestStore_get
            (snd (RequestStore_resolve (resourceRequestStore w) s' p' x)) s p = Some a)
    \<and> (\<forall>es. RequestStore_get (resourceRequestStore (run self_origin es w)) s p = Some a
          \<and> promise_at (resourceRequestStore (run self_origin es w)) a = Some (Fulfilled v)
          \<and> (\<forall>t pc. t < length (tasks (run self_origin es w))
                \<and> tasks (run self_origin es w) ! t = Resource_AwaitOuter s p (Some pc) \<longrightarrow>
                continue t (run self_origin es w)
                  = (run self_origin es w)\<lparr>tasks := (tasks (run self_origin es w))
                       [t := Resource_AwaitEntry s p a]\<rparr>
                \<and> tasks (continue t (continue t (run self_origin es w))) ! t
                    = settle (resolveResourceEntry v)))"
proof -
  have kept: "RequestStore_get (snd (RequestStore_resolve (resourceRequestStore w) s' p' x)) s p
      = Some a" for s' p' x
    using assms(1) by (simp add: resolve_get)
  have later: "RequestStore_get (resourceRequestStore (run self_origin es w)) s p = Some a
      \<and> promise_at (resourceRequestStore (run self_origin es w)) a = Some (Fulfilled v)
      \<and> (\<forall>t pc. t < length (tasks (run self_origin es w))
            \<and> tasks (run self_origin es w) ! t = Resource_AwaitOuter s p (Some pc) \<longrightarrow>
            continue t (run self_origin es w)
              = (run self_origin es w)\<lparr>tasks := (tasks (run self_origin es w))
                   [t := Resource_AwaitEntry s p a]\<rparr>
            \<and> tasks (continue t (continue t (run self_origin es w))) ! t
                = settle (resolveResourceEntry v))" for es
  proof -
    let ?w' = "run self_origin es w"
    have g: "RequestStore_get (resourceRequestStore ?w') s p = Some a"
      using assms(1) by (simp add: RequestStore_get_def run_map_of_mono)
    have f: "promise_at (resourceRequestStore ?w') a = Some (Fulfilled v)"
      using assms(2) by (rule run_fulfilled_stable)
    have "continue t ?w' = ?w'\<lparr>tasks := (tasks ?w')[t := Resource_AwaitEntry s p a]\<rparr>
        \<and> tasks (continue t (continue t ?w')) ! t = settle (resolveResourceEntry v)"
      if "t < length (tasks ?w')" "tasks ?w' ! t = Resource_AwaitOuter s p (Some pc)" for t pc
    proof -
      have j: "continue t ?w' = ?w'\<lparr>tasks := (tasks ?w')[t := Resource_AwaitEntry s p a]\<rparr>"
        using that g by (rule continue_join)
      have "tasks (continue t (?w'\<lparr>tasks := (tasks ?w')[t := Resource_AwaitEntry s p a]\<rparr>)) ! t
          = settle (resolveResourceEntry v)"
        using that(1) f by (intro continue_release) simp_all
      then show ?thesis using j by simp
    qed
    then show ?thesis using g f by blast
  qed
  show ?thesis
    using kept later by blast
qed

theorem entry_kept_witness:
  "RequestStore_get (resourceRequestStore ex_answered) ''s1'' ''/img.png'' = Some 0
   \<and> promise_at (resourceRequestStore ex_answered) 0
       = Some (Fulfilled (Some \<lparr>body = ''BYTES'', mime = ''image/png''\<rparr>))
   \<and> tasks (run ''https://w'' (take 3 ex_second_schedule) ex_answered) ! 1
       = Resource_AwaitOuter ''s1'' ''/img.png'' (Some ex_outer)
   \<and> posted (continue 1 (run ''https://w'' (take 3 ex_second_schedule) ex_answered))
       = posted (run ''https://w'' (take 3 ex_second_schedule) ex_answered)
   \<and> resourceRequestStore (continue 1 (run ''https://w'' (take 3 ex_second_schedule) ex_answered))
       = resourceRequestStore (run ''https://w'' (take 3 ex_second_schedule) ex_answered)
   \<and> tasks (continue 1 (continue 1
         (run ''https://w'' (take 3 ex_second_schedule) ex_answered))) ! 1
       = Returned (Respond \<lparr>status = 200, responseBody = Some ''BYTES'',
           headers = [(''Content-Type'', ''image/png'')]\<rparr>)"
proof -
  let ?w' = "run ''https://w'' (take 3 ex_second_schedule) ex_answered"
  have g: "RequestStore_get (resourceRequestStore ex_answered) ''s1'' ''/img.png'' = Some 0"
    by (simp add: ex_answered_def RequestStore_get_def RequestStore_key_def)
  have f: "promise_at (resourceRequestStore ex_answered) 0
       = Some (Fulfilled (Some \<lparr>body = ''BYTES'', mime = ''image/png''\<rparr>))"
    by (simp add: ex_answered_def promise_at_def)
  have l: "1 < length (tasks ?w')" by code_simp
  have t: "tasks ?w' ! 1 = Resource_AwaitOuter ''s1'' ''/img.png'' (Some ex_outer)"
    by code_simp
  have m: "settle (resolveResourceEntry (Some \<lparr>body = ''BYTES'', mime = ''image/png''\<rparr>))
      = Returned (Respond \<lparr>status = 200, responseBody = Some ''BYTES'',
           headers = [(''Content-Type'', ''image/png'')]\<rparr>)"
    by (simp add: resolveResourceEntry_png)
  note k = entry_kept [OF g f, of "''https://w''", THEN conjunct2, rule_format,
      of "take 3 ex_second_schedule", THEN conjunct2, THEN conjunct2, rule_format,
      of 1 ex_outer]
  have both: "continue 1 ?w'
        = ?w'\<lparr>tasks := (tasks ?w')[1 := Resource_AwaitEntry ''s1'' ''/img.png'' 0]\<rparr>
      \<and> tasks (continue 1 (continue 1 ?w')) ! 1
        = settle (resolveResourceEntry
            (Some \<lparr>body = ''BYTES'', mime = ''image/png''\<rparr>))"
    using k l t by blast
  have c: "continue 1 ?w'
      = ?w'\<lparr>tasks := (tasks ?w')[1 := Resource_AwaitEntry ''s1'' ''/img.png'' 0]\<rparr>"
    using both by (rule conjunct1)
  have r: "tasks (continue 1 (continue 1 ?w')) ! 1
       = Returned (Respond \<lparr>status = 200, responseBody = Some ''BYTES'',
           headers = [(''Content-Type'', ''image/png'')]\<rparr>)"
    using both [THEN conjunct2] by (simp only: m)
  have "posted (continue 1 ?w') = posted ?w'"
    "resourceRequestStore (continue 1 ?w') = resourceRequestStore ?w'"
    using c by simp_all
  then show ?thesis
    using g f t r by simp
qed

end
